theory Spec2Isabelle
  imports Complex_Main "HOL-Library.Char_ord" "HOL-Library.List_Lexorder"
begin

section \<open>Majority vote over the per-frame predictions (app.py, attendance_recognize)\<close>

text \<open>
  A per-frame prediction is what \<^verbatim>\<open>FaceService.predict_student_id\<close> returns: a student id
  or Python's \<^verbatim>\<open>None\<close>.  \<^verbatim>\<open>collections.Counter(preds)\<close> is a dict, so it keeps its keys in
  the order of their first occurrence; it is modelled as an association list in that order.
\<close>

type_synonym pred = "int option"

fun counter_add :: "('a \<times> nat) list \<Rightarrow> 'a \<Rightarrow> ('a \<times> nat) list" where
  "counter_add [] x = [(x, 1)]"
| "counter_add ((y, c) # rest) x =
     (if y = x then (y, c + 1) # rest else (y, c) # counter_add rest x)"

definition Counter :: "'a list \<Rightarrow> ('a \<times> nat) list" where
  "Counter xs = foldl counter_add [] xs"

text \<open>
  \<^verbatim>\<open>cnt.most_common(1)\<close> is \<^verbatim>\<open>heapq.nlargest(1, cnt.items(), key=itemgetter(1))\<close>, which for
  one element is \<^verbatim>\<open>max\<close> with that key: the first item, in dict order, whose count is
  maximal.  On an empty counter the list is empty and \<^verbatim>\<open>[0]\<close> would raise, hence the option;
  the vote below counts a non-empty list only, whose counter has an item.
\<close>

definition max_item :: "('a \<times> nat) \<Rightarrow> ('a \<times> nat) list \<Rightarrow> ('a \<times> nat)" where
  "max_item p ps = foldl (\<lambda>b q. if snd b < snd q then q else b) p ps"

fun most_common1 :: "('a \<times> nat) list \<Rightarrow> ('a \<times> nat) option" where
  "most_common1 [] = None"
| "most_common1 (p # ps) = Some (max_item p ps)"

text \<open>
  What the endpoint answers: the JSON bodies of \<^verbatim>\<open>attendance_recognize\<close>, with the ids and
  names they carry.
\<close>

datatype response =
    Unauthorized                           \<comment> \<open>\<^verbatim>\<open>{'error': 'unauthorized'}, 403\<close>\<close>
  | No_Files                               \<comment> \<open>\<^verbatim>\<open>{'error': 'no file(s)'}, 400\<close>\<close>
  | OpenCV_Missing                         \<comment> \<open>\<^verbatim>\<open>{'error': 'opencv-python not installed'}, 500\<close>\<close>
  | Bad_Image_Frames                       \<comment> \<open>\<^verbatim>\<open>'student_id': None, 'message': 'bad image frames'\<close>\<close>
  | Face_Not_Recognized                    \<comment> \<open>\<^verbatim>\<open>'student_id': None, 'message': 'face not recognized'\<close>\<close>
  | Student_Not_Found                      \<comment> \<open>\<^verbatim>\<open>{'error': 'student not found'}, 404\<close>\<close>
  | Attendance_Marked int string int string    \<comment> \<open>\<^verbatim>\<open>'message': 'attendance marked'\<close>\<close>
  | Attendance_Already_Marked int string int string
                                           \<comment> \<open>\<^verbatim>\<open>'message': 'attendance already marked'\<close>\<close>
  | No_Matching_Class int string           \<comment> \<open>\<^verbatim>\<open>'subject_id': None, 'message': 'no matching class'\<close>\<close>
  | Internal_Server_Error                  \<comment> \<open>an exception leaves the view: Flask answers 500\<close>
  | Missing_Fields                         \<comment> \<open>\<^verbatim>\<open>'error': 'Missing required fields', 400\<close>\<close>
  | Manual_Marked                          \<comment> \<open>\<^verbatim>\<open>'success': True, 'message': 'Attendance marked successfully'\<close>\<close>
  | Manual_Failed                          \<comment> \<open>\<^verbatim>\<open>'success': False, 'error': str(e), 500\<close>\<close>

text \<open>
  The majority vote either returns early with a response (\<open>Inl\<close>) or sets \<^verbatim>\<open>student_id\<close>
  (\<open>Inr\<close>) and the flow goes on.
\<close>

definition majority_vote :: "pred list \<Rightarrow> response + int" where
  "majority_vote preds =
     (if preds = [] then Inl Bad_Image_Frames
      else case most_common1 (Counter preds) of
             None \<Rightarrow> Inl Bad_Image_Frames
           | Some (best_id, best_count) \<Rightarrow>
               (case best_id of
                  None \<Rightarrow> Inl Face_Not_Recognized
                | Some student_id \<Rightarrow>
                    if best_count \<le> length preds div 2 then Inl Face_Not_Recognized
                    else Inr student_id))"

section \<open>Embeddings and the matcher (face_recog.py, FaceService)\<close>

text \<open>
  An embedding is a one-dimensional numpy array: 512 numbers from Facenet512, or the
  4096 pixels of the 64 x 64 grey image in the fallback.  Its shape is its length.
  The program stores nothing else: \<^verbatim>\<open>enroll_from_path\<close> writes what \<^verbatim>\<open>_compute_embedding\<close>
  returns, and the upload script copies those files; arrays of higher rank have no
  counterpart here.  The float32/float64 arithmetic of numpy is idealised as arithmetic
  on the reals, so nothing below speaks about the rounding of a distance.
\<close>

type_synonym embedding = "real list"

datatype py_error =
    ValueError      \<comment> \<open>numpy: operands of \<^verbatim>\<open>ref - e\<close> cannot be broadcast together\<close>
  | Cv2_Error       \<comment> \<open>\<^verbatim>\<open>cv2.error\<close>: \<^verbatim>\<open>cv2.imdecode\<close> asserts that its buffer is not empty\<close>

definition np_dot :: "embedding \<Rightarrow> embedding \<Rightarrow> real" where
  "np_dot a b = sum_list (map2 (*) a b)"

definition np_norm :: "embedding \<Rightarrow> real" where
  "np_norm a = sqrt (sum_list (map (\<lambda>x. x * x) a))"

text \<open>
  \<^verbatim>\<open>ref - e\<close> on arrays of different shapes: numpy broadcasts an array with a single
  element against the other one, and raises \<^verbatim>\<open>ValueError\<close> for every other pair of
  different lengths.
\<close>

definition np_sub :: "embedding \<Rightarrow> embedding \<Rightarrow> py_error + embedding" where
  "np_sub a b =
     (if length a = length b then Inr (map2 (-) a b)
      else if length a = 1 then Inr (map (\<lambda>y. hd a - y) b)
      else if length b = 1 then Inr (map (\<lambda>x. x - hd b) a)
      else Inl ValueError)"

text \<open>
  The body of the \<^verbatim>\<open>try\<close> in the scan of \<^verbatim>\<open>predict_student_id\<close>, for one reference: the
  distance \<^verbatim>\<open>dist\<close> (written \<open>d\<close> below) and the flag \<^verbatim>\<open>is_cosine\<close>, or the exception the
  \<^verbatim>\<open>except\<close> swallows.
\<close>

definition distance :: "embedding \<Rightarrow> embedding \<Rightarrow> py_error + (real \<times> bool)" where
  "distance ref e =
     (if length ref = length e then
        (let num = np_dot ref e;
             den = np_norm ref * np_norm e + 1 / 10 ^ 8
         in Inr (1 - num / den, True))
      else
        (case np_sub ref e of
           Inl err \<Rightarrow> Inl err
         | Inr diff \<Rightarrow> Inr (np_norm diff, False)))"

text \<open>
  The three variables \<^verbatim>\<open>best_score\<close>, \<^verbatim>\<open>best_id\<close>, \<^verbatim>\<open>best_is_cosine\<close> are assigned
  together; \<open>None\<close> is their initial state \<^verbatim>\<open>(inf, None, False)\<close>, in which every distance
  is smaller than \<^verbatim>\<open>best_score\<close>.
\<close>

type_synonym best = "(real \<times> int \<times> bool) option"

fun scan :: "(int \<times> embedding) list \<Rightarrow> embedding \<Rightarrow> best \<Rightarrow> best" where
  "scan [] e best = best"
| "scan ((sid, ref) # rest) e best =
     scan rest e
       (case distance ref e of
          Inl err \<Rightarrow> best
        | Inr (d, is_cosine) \<Rightarrow>
            (case best of
               None \<Rightarrow> Some (d, sid, is_cosine)
             | Some (best_score, best_id, best_is_cosine) \<Rightarrow>
                 if d < best_score then Some (d, sid, is_cosine) else best))"

definition accept :: "best \<Rightarrow> real \<Rightarrow> real \<Rightarrow> int option" where
  "accept best threshold_nn threshold_fallback =
     (case best of
        None \<Rightarrow> None
      | Some (best_score, best_id, best_is_cosine) \<Rightarrow>
          if best_is_cosine then
            (if best_score > threshold_nn then None else Some best_id)
          else
            (if best_score > threshold_fallback then None else Some best_id))"

text \<open>
  The two variants of an embedding: Facenet512 yields 512 numbers, the fallback the
  64 * 64 pixels of the resized grey image.  A cross-variant pair is a reference of one
  variant and a query of the other.
\<close>

definition nn_dim :: nat where
  "nn_dim = 512"

definition fallback_dim :: nat where
  "fallback_dim = 64 * 64"

definition cross_variant :: "embedding \<Rightarrow> embedding \<Rightarrow> bool" where
  "cross_variant ref e \<longleftrightarrow>
     length ref = nn_dim \<and> length e = fallback_dim \<or>
     length ref = fallback_dim \<and> length e = nn_dim"

text \<open>
  A decoded image is known to the model by what the two extraction algorithms make of
  it: the outcome of \<^verbatim>\<open>DeepFace.represent\<close> and the fallback vector.
\<close>

datatype nn_outcome =
    Represent_Raises              \<comment> \<open>an exception inside the \<^verbatim>\<open>try\<close>\<close>
  | Represent_Nothing             \<comment> \<open>no list, an empty list, or no key \<^verbatim>\<open>'embedding'\<close>\<close>
  | Represent embedding

record image =
  img_represent :: nn_outcome
  img_fallback :: embedding

text \<open>
  \<open>supabase\<close> says whether a client is configured (\<^verbatim>\<open>self.supabase is not None\<close>);
  \<open>emb_cache\<close> is \<^verbatim>\<open>self._emb_cache\<close>, a dict in insertion order or \<^verbatim>\<open>None\<close>.
\<close>

record face_service =
  has_cv2 :: bool
  has_nn :: bool
  supabase :: bool
  emb_cache :: "(int \<times> embedding) list option"

text \<open>
  Durable storage: the readable \<^verbatim>\<open>data/embeddings/<id>.npy\<close> files in the order of the
  directory listing, and the rows of the remote table \<^verbatim>\<open>face_embeddings\<close>.
\<close>

record storage =
  emb_files :: "(int \<times> embedding) list"
  emb_table :: "(int \<times> embedding) list"

fun dict_set :: "('k \<times> 'v) list \<Rightarrow> 'k \<Rightarrow> 'v \<Rightarrow> ('k \<times> 'v) list" where
  "dict_set [] k v = [(k, v)]"
| "dict_set ((k', v') # rest) k v =
     (if k' = k then (k, v) # rest else (k', v') # dict_set rest k v)"

definition compute_embedding :: "face_service \<Rightarrow> image \<Rightarrow> embedding option" where
  "compute_embedding fs img =
     (if \<not> has_cv2 fs then None
      else if has_nn fs then
        (case img_represent img of
           Represent_Raises \<Rightarrow> None
         | Represent emb \<Rightarrow> Some emb
         | Represent_Nothing \<Rightarrow> Some (img_fallback img))
      else Some (img_fallback img))"

definition load_table :: "(int \<times> embedding) list \<Rightarrow> (int \<times> embedding) list" where
  "load_table rows =
     foldl (\<lambda>cache (sid, emb). if length emb > 0 then dict_set cache sid emb else cache) [] rows"

definition load_files :: "(int \<times> embedding) list \<Rightarrow> (int \<times> embedding) list" where
  "load_files files = foldl (\<lambda>cache (sid, emb). dict_set cache sid emb) [] files"

text \<open>\<open>select_ok\<close>: the remote \<^verbatim>\<open>select\<close> answers rather than raises.\<close>

definition load_cache :: "face_service \<Rightarrow> storage \<Rightarrow> bool \<Rightarrow> (int \<times> embedding) list" where
  "load_cache fs st select_ok =
     (if supabase fs then
        (if select_ok then load_table (emb_table st) else load_files (emb_files st))
      else load_files (emb_files st))"

text \<open>"Load embeddings into cache if not present": the cache after that step.\<close>

definition ensure_cache :: "face_service \<Rightarrow> storage \<Rightarrow> bool \<Rightarrow> (int \<times> embedding) list" where
  "ensure_cache fs st select_ok =
     (case emb_cache fs of
        None \<Rightarrow> load_cache fs st select_ok
      | Some cache \<Rightarrow> cache)"

definition predict_student_id ::
  "face_service \<Rightarrow> storage \<Rightarrow> bool \<Rightarrow> image \<Rightarrow> real \<Rightarrow> real \<Rightarrow> int option \<times> face_service" where
  "predict_student_id fs st select_ok frame_bgr threshold_nn threshold_fallback =
     (case compute_embedding fs frame_bgr of
        None \<Rightarrow> (None, fs)
      | Some e \<Rightarrow>
          (let cache = ensure_cache fs st select_ok
           in (accept (scan cache e None) threshold_nn threshold_fallback,
               fs\<lparr>emb_cache := Some cache\<rparr>)))"

definition threshold_nn_default :: real where
  "threshold_nn_default = 35 / 100"

definition threshold_fallback_default :: real where
  "threshold_fallback_default = 6 / 10"

text \<open>
  \<open>imread\<close>: what \<^verbatim>\<open>cv2.imread\<close> finds at the file a served path maps to (\<open>None\<close> when it
  cannot be read); \<open>save_ok\<close>, \<open>upsert_ok\<close>: \<^verbatim>\<open>np.save\<close> and the remote upsert go through
  rather than raise.
\<close>

definition enroll_from_path ::
  "face_service \<Rightarrow> storage \<Rightarrow> (string \<Rightarrow> image option) \<Rightarrow> bool \<Rightarrow> bool \<Rightarrow> string \<Rightarrow> int
     \<Rightarrow> bool \<times> face_service \<times> storage" where
  "enroll_from_path fs st imread save_ok upsert_ok img_path student_id =
     (if \<not> has_cv2 fs \<or> img_path = [] then (False, fs, st)
      else case imread img_path of
        None \<Rightarrow> (False, fs, st)
      | Some img \<Rightarrow>
          (case compute_embedding fs img of
             None \<Rightarrow> (False, fs, st)
           | Some e \<Rightarrow>
               (let st1 = (if save_ok
                           then st\<lparr>emb_files := dict_set (emb_files st) student_id e\<rparr>
                           else st)
                in if supabase fs then
                     (if upsert_ok
                      then (True, fs\<lparr>emb_cache := None\<rparr>,
                            st1\<lparr>emb_table := dict_set (emb_table st1) student_id e\<rparr>)
                      else (True, fs, st1))
                   else (True, fs, st1))))"

text \<open>
  Step 4 of \<^verbatim>\<open>delete_student_profile\<close> (app.py): the local file is unlinked and the remote
  rows are deleted when a client is configured (\<open>delete_ok\<close>: that call goes through).
  The module's \<^verbatim>\<open>face_service\<close> is not touched.
\<close>

definition delete_embedding ::
  "face_service \<Rightarrow> storage \<Rightarrow> bool \<Rightarrow> int \<Rightarrow> face_service \<times> storage" where
  "delete_embedding fs st delete_ok student_id =
     (let st1 = st\<lparr>emb_files := filter (\<lambda>(sid, emb). sid \<noteq> student_id) (emb_files st)\<rparr>
      in if supabase fs \<and> delete_ok
         then (fs, st1\<lparr>emb_table := filter (\<lambda>(sid, emb). sid \<noteq> student_id) (emb_table st1)\<rparr>)
         else (fs, st1))"

text \<open>
  An uploaded file, as \<^verbatim>\<open>cv2.imdecode(np.frombuffer(f.read(), np.uint8), ...)\<close> meets it: an
  empty buffer, on which \<^verbatim>\<open>imdecode\<close> raises; bytes that are no image, for which it returns
  \<^verbatim>\<open>None\<close>; or the bytes of an image.
\<close>

datatype upload =
    Empty_Buffer
  | Undecodable
  | Decoded image

text \<open>
  The loop over the uploaded files in \<^verbatim>\<open>attendance_recognize\<close>.  Nothing catches the
  exception of \<^verbatim>\<open>imdecode\<close>: the loop ends there (\<open>Inl\<close>), and the service keeps the cache
  the earlier frames have loaded.
\<close>

fun recognize_frames ::
  "face_service \<Rightarrow> storage \<Rightarrow> bool \<Rightarrow> upload list \<Rightarrow> (py_error + pred list) \<times> face_service" where
  "recognize_frames fs st select_ok [] = (Inr [], fs)"
| "recognize_frames fs st select_ok (Empty_Buffer # files) = (Inl Cv2_Error, fs)"
| "recognize_frames fs st select_ok (Undecodable # files) = recognize_frames fs st select_ok files"
| "recognize_frames fs st select_ok (Decoded img # files) =
     (let (pid, fs1) = predict_student_id fs st select_ok img
                         threshold_nn_default threshold_fallback_default;
          (rest, fs2) = recognize_frames fs1 st select_ok files
      in (case rest of
            Inl err \<Rightarrow> Inl err
          | Inr preds \<Rightarrow> Inr (pid # preds),
          fs2))"

section \<open>Timetable and attendance ledger (models.py; app.py, attendance_recognize)\<close>

record student =
  student_name :: string
  student_class_id :: "int option"

record student_timetable =
  stt_student_id :: int
  stt_subject_id :: int
  stt_weekday :: int
  start_time :: string
  end_time :: string

text \<open>
  \<^verbatim>\<open>datetime.now()\<close>: the date as its proleptic ordinal (\<^verbatim>\<open>date.toordinal()\<close>), and the hour and
  minute; seconds play no part in the flow.
\<close>

record datetime =
  dt_ordinal :: int
  dt_hour :: nat
  dt_minute :: nat

record attendance =
  att_student_id :: int
  att_subject_id :: "int option"
  att_class_id :: "int option"
  att_timestamp :: datetime
  att_is_present :: bool
  att_method :: string

record database =
  students :: "int \<rightharpoonup> student"
  subjects :: "int \<rightharpoonup> string"
  student_timetables :: "student_timetable list"
  attendance_rows :: "attendance list"

text \<open>\<^verbatim>\<open>now.weekday()\<close> is \<^verbatim>\<open>(toordinal() + 6) % 7\<close>: 0 is Monday.\<close>

definition weekday :: "datetime \<Rightarrow> int" where
  "weekday now = (dt_ordinal now + 6) mod 7"

text \<open>\<^verbatim>\<open>%H\<close> and \<^verbatim>\<open>%M\<close>: two decimal digits (the hour is below 24, the minute below 60).\<close>

definition two_digits :: "nat \<Rightarrow> string" where
  "two_digits n = [''0123456789'' ! (n div 10), ''0123456789'' ! (n mod 10)]"

definition strftime_HM :: "datetime \<Rightarrow> string" where
  "strftime_HM now = two_digits (dt_hour now) @ '':'' @ two_digits (dt_minute now)"

text \<open>
  The query \<^verbatim>\<open>StudentTimetable.query.filter_by(...).order_by(start_time).all()\<close>; strings are
  compared as Python and the database compare them, character by character.  Rows with
  the same start time keep the order of the table here; the database leaves their order
  open.
\<close>

definition timetable_rows :: "database \<Rightarrow> int \<Rightarrow> int \<Rightarrow> student_timetable list" where
  "timetable_rows db student_id wd =
     sort_key start_time
       (filter (\<lambda>r. stt_student_id r = student_id \<and> stt_weekday r = wd) (student_timetables db))"

text \<open>The loop \<^verbatim>\<open>for r in rows: if r.start_time <= now_str <= r.end_time: ...; break\<close>.\<close>

fun current_slot :: "student_timetable list \<Rightarrow> string \<Rightarrow> student_timetable option" where
  "current_slot [] now_str = None"
| "current_slot (r # rows) now_str =
     (if start_time r \<le> now_str \<and> now_str \<le> end_time r then Some r
      else current_slot rows now_str)"

definition existing_attendance :: "database \<Rightarrow> int \<Rightarrow> int \<Rightarrow> datetime \<Rightarrow> attendance option" where
  "existing_attendance db student_id subject_id now =
     find (\<lambda>a. att_student_id a = student_id \<and> att_subject_id a = Some subject_id
                \<and> dt_ordinal (att_timestamp a) = dt_ordinal now)
          (attendance_rows db)"

text \<open>
  What the loop leaves in \<^verbatim>\<open>subject_id\<close> and \<^verbatim>\<open>current_subject\<close>, as the test
  \<^verbatim>\<open>if subject_id and current_subject\<close> reads them: the id and the name of the subject of
  the current slot, or \<open>None\<close> when there is no current slot, when the id is 0 or when no
  subject has that id.
\<close>

definition current_subject :: "database \<Rightarrow> int \<Rightarrow> datetime \<Rightarrow> (int \<times> string) option" where
  "current_subject db student_id now =
     (case current_slot (timetable_rows db student_id (weekday now)) (strftime_HM now) of
        None \<Rightarrow> None
      | Some r \<Rightarrow>
          (case subjects db (stt_subject_id r) of
             None \<Rightarrow> None
           | Some subject_name \<Rightarrow>
               if stt_subject_id r = 0 then None else Some (stt_subject_id r, subject_name)))"

text \<open>
  The flow of \<^verbatim>\<open>attendance_recognize\<close> once \<^verbatim>\<open>student_id\<close> is set.  The copy of a new record
  sent to the remote attendance table is best effort and changes nothing here.
\<close>

definition mark_attendance :: "database \<Rightarrow> datetime \<Rightarrow> int \<Rightarrow> response \<times> database" where
  "mark_attendance db now student_id =
     (case students db student_id of
        None \<Rightarrow> (Student_Not_Found, db)
      | Some student \<Rightarrow>
          (case current_subject db student_id now of
             None \<Rightarrow> (No_Matching_Class student_id (student_name student), db)
           | Some (subject_id, subject_name) \<Rightarrow>
               (case existing_attendance db student_id subject_id now of
                  None \<Rightarrow>
                    (Attendance_Marked student_id (student_name student) subject_id subject_name,
                     db\<lparr>attendance_rows := attendance_rows db @
                        [\<lparr>att_student_id = student_id,
                          att_subject_id = Some subject_id,
                          att_class_id = student_class_id student,
                          att_timestamp = now,
                          att_is_present = True,
                          att_method = ''face''\<rparr>]\<rparr>)
                | Some existing \<Rightarrow>
                    (Attendance_Already_Marked student_id (student_name student)
                       subject_id subject_name,
                     db))))"

text \<open>
  The number of ledger records of a student for a subject on a day: the records the
  query for \<^verbatim>\<open>existing\<close> ranges over.
\<close>

definition ledger_count :: "database \<Rightarrow> int \<Rightarrow> int \<Rightarrow> int \<Rightarrow> nat" where
  "ledger_count db student_id subject_id day =
     length (filter (\<lambda>a. att_student_id a = student_id \<and> att_subject_id a = Some subject_id
                          \<and> dt_ordinal (att_timestamp a) = day)
                    (attendance_rows db))"

text \<open>
  The endpoint: \<open>authorized\<close> is \<^verbatim>\<open>session.get('attendance_authorized')\<close>; the import of
  \<^verbatim>\<open>cv2\<close> succeeds exactly when the one in face_recog.py did.
\<close>

definition attendance_recognize ::
  "bool \<Rightarrow> face_service \<Rightarrow> storage \<Rightarrow> bool \<Rightarrow> database \<Rightarrow> datetime \<Rightarrow> upload list
     \<Rightarrow> response \<times> face_service \<times> database" where
  "attendance_recognize authorized fs st select_ok db now files =
     (if \<not> authorized then (Unauthorized, fs, db)
      else if files = [] then (No_Files, fs, db)
      else if \<not> has_cv2 fs then (OpenCV_Missing, fs, db)
      else
        (let (frames, fs1) = recognize_frames fs st select_ok files
         in case frames of
              Inl err \<Rightarrow> (Internal_Server_Error, fs1, db)
            | Inr preds \<Rightarrow>
                (case majority_vote preds of
                   Inl resp \<Rightarrow> (resp, fs1, db)
                 | Inr student_id \<Rightarrow>
                     (let (resp, db1) = mark_attendance db now student_id
                      in (resp, fs1, db1)))))"

text \<open>
  The endpoint \<^verbatim>\<open>manual_attendance\<close>: the three form fields as \<^verbatim>\<open>request.form.get(..., type=int)\<close>
  returns them; \<^verbatim>\<open>all([student_id, day is not None, subject_id])\<close> wants the two ids present
  and not 0 and the day present.  The record is added without looking for an existing
  one.  \<open>commit_ok\<close>: the commit goes through rather than raises.
\<close>

definition manual_attendance ::
  "bool \<Rightarrow> database \<Rightarrow> datetime \<Rightarrow> bool \<Rightarrow> int option \<Rightarrow> int option \<Rightarrow> int option
     \<Rightarrow> response \<times> database" where
  "manual_attendance authorized db now commit_ok student_id day subject_id =
     (if \<not> authorized then (Unauthorized, db)
      else case (student_id, day, subject_id) of
        (Some sid, Some d, Some subj) \<Rightarrow>
          if sid = 0 \<or> subj = 0 then (Missing_Fields, db)
          else if commit_ok then
            (Manual_Marked,
             db\<lparr>attendance_rows := attendance_rows db @
                [\<lparr>att_student_id = sid,
                  att_subject_id = Some subj,
                  att_class_id = None,
                  att_timestamp = now,
                  att_is_present = True,
                  att_method = ''manual''\<rparr>]\<rparr>)
          else (Manual_Failed, db)
      | _ \<Rightarrow> (Missing_Fields, db))"

section \<open>Sample data for the worked examples\<close>

text \<open>
  A service without the neural network (fallback variant) and one with it, both with
  OpenCV and without a remote client; an image whose 64 x 64 grey pixels all have the
  value \<open>v\<close> (as a fraction of 255); an image Facenet512 maps to 512 equal numbers.
\<close>

definition fallback_service :: "(int \<times> embedding) list option \<Rightarrow> face_service" where
  "fallback_service cache = \<lparr>has_cv2 = True, has_nn = False, supabase = False, emb_cache = cache\<rparr>"

definition nn_service :: "(int \<times> embedding) list option \<Rightarrow> face_service" where
  "nn_service cache = \<lparr>has_cv2 = True, has_nn = True, supabase = False, emb_cache = cache\<rparr>"

definition grey_image :: "real \<Rightarrow> image" where
  "grey_image v = \<lparr>img_represent = Represent_Nothing, img_fallback = replicate 4096 v\<rparr>"

definition nn_image :: "real \<Rightarrow> image" where
  "nn_image v = \<lparr>img_represent = Represent (replicate 512 v), img_fallback = replicate 4096 0\<rparr>"

definition failing_image :: image where
  "failing_image = \<lparr>img_represent = Represent_Raises, img_fallback = replicate 4096 0\<rparr>"

definition reads :: "image \<Rightarrow> string \<Rightarrow> image option" where
  "reads img path = Some img"

definition empty_storage :: storage where
  "empty_storage = \<lparr>emb_files = [], emb_table = []\<rparr>"

text \<open>
  A database with one student whose Monday timetable has the two slots 09:00-10:00
  (subject 1) and 10:00-11:00 (subject 2), stored out of order, and an empty ledger;
  a time of day on Monday 2 November 2026 (ordinal 739922).
\<close>

definition sample_db :: database where
  "sample_db =
     \<lparr>students = [7 \<mapsto> \<lparr>student_name = ''Asha'', student_class_id = Some 1\<rparr>],
      subjects = [1 \<mapsto> ''Subj1'', 2 \<mapsto> ''Subj2''],
      student_timetables =
        [\<lparr>stt_student_id = 7, stt_subject_id = 2, stt_weekday = 0,
          start_time = ''10:00'', end_time = ''11:00''\<rparr>,
         \<lparr>stt_student_id = 7, stt_subject_id = 1, stt_weekday = 0,
          start_time = ''09:00'', end_time = ''10:00''\<rparr>],
      attendance_rows = []\<rparr>"

definition monday_at :: "nat \<Rightarrow> nat \<Rightarrow> datetime" where
  "monday_at h m = \<lparr>dt_ordinal = 739922, dt_hour = h, dt_minute = m\<rparr>"

text \<open>The sample database after two calls of the manual endpoint for student 7, subject 1.\<close>

definition manual_twice_db :: database where
  "manual_twice_db =
     snd (manual_attendance True
            (snd (manual_attendance True sample_db (monday_at 9 10) True (Some 7) (Some 0) (Some 1)))
            (monday_at 9 20) True (Some 7) (Some 0) (Some 1))"

section \<open>Properties of the majority vote\<close>

lemma counter_add_keys: "fst ` set (counter_add c x) = insert x (fst ` set c)"
  by (induction c x rule: counter_add.induct) auto

lemma counter_add_distinct: "distinct (map fst c) \<Longrightarrow> distinct (map fst (counter_add c x))"
proof (induction c x rule: counter_add.induct)
  case (1 x) show ?case by simp
next
  case (2 y c rest x)
  then show ?case using counter_add_keys[of rest x] by (auto simp: image_iff)
qed

lemma counter_add_map_of:
  "map_of (counter_add c x) y =
     (if y = x then Some (case map_of c x of None \<Rightarrow> 1 | Some n \<Rightarrow> n + 1) else map_of c y)"
  by (induction c x rule: counter_add.induct) auto

lemma foldl_counter_add_distinct:
  "distinct (map fst c) \<Longrightarrow> distinct (map fst (foldl counter_add c xs))"
  by (induction xs arbitrary: c) (auto simp: counter_add_distinct)

lemma foldl_counter_add_map_of:
  "map_of (foldl counter_add c xs) y =
     (case map_of c y of
        None \<Rightarrow> (if y \<in> set xs then Some (count_list xs y) else None)
      | Some n \<Rightarrow> Some (n + count_list xs y))"
  by (induction xs arbitrary: c) (auto simp: counter_add_map_of split: option.splits)

lemma Counter_distinct: "distinct (map fst (Counter xs))"
  by (simp add: Counter_def foldl_counter_add_distinct)

lemma Counter_map_of:
  "map_of (Counter xs) y = (if y \<in> set xs then Some (count_list xs y) else None)"
  by (simp add: Counter_def foldl_counter_add_map_of)

lemma Counter_mem: "(y, n) \<in> set (Counter xs) \<longleftrightarrow> y \<in> set xs \<and> n = count_list xs y"
proof -
  have "(y, n) \<in> set (Counter xs) \<longleftrightarrow> map_of (Counter xs) y = Some n"
    using map_of_eq_Some_iff[OF Counter_distinct] by metis
  then show ?thesis by (auto simp: Counter_map_of)
qed

lemma max_item_mem: "max_item p ps \<in> set (p # ps)"
  unfolding max_item_def by (induction ps arbitrary: p) auto

lemma max_item_mono: "snd p \<le> snd (max_item p ps)"
  unfolding max_item_def
proof (induction ps arbitrary: p)
  case Nil show ?case by simp
next
  case (Cons a ps)
  show ?case using Cons[of a] Cons[of p] by auto
qed

lemma max_item_ge: "q \<in> set (p # ps) \<Longrightarrow> snd q \<le> snd (max_item p ps)"
proof (induction ps arbitrary: p)
  case Nil then show ?case by (simp add: max_item_def)
next
  case (Cons a ps)
  have step: "max_item p (a # ps) = max_item (if snd p < snd a then a else p) ps"
    by (simp add: max_item_def)
  consider "q = p" | "q = a" | "q \<in> set ps" using Cons.prems by auto
  then show ?case
  proof cases
    case 1
    then show ?thesis using max_item_mono[of p "a # ps"] by simp
  next
    case 2
    have "snd a \<le> snd (if snd p < snd a then a else p)" by simp
    also have "\<dots> \<le> snd (max_item (if snd p < snd a then a else p) ps)" by (rule max_item_mono)
    finally show ?thesis using 2 step by simp
  next
    case 3
    then show ?thesis using Cons.IH[of "if snd p < snd a then a else p"] step by simp
  qed
qed

lemma count_list_two: "x \<noteq> y \<Longrightarrow> count_list xs x + count_list xs y \<le> length xs"
  by (induction xs) auto

lemma most_common1_Counter:
  assumes "xs \<noteq> []"
  obtains b k where "most_common1 (Counter xs) = Some (b, k)" "b \<in> set xs" "k = count_list xs b"
    "\<And>y. y \<in> set xs \<Longrightarrow> count_list xs y \<le> k"
proof -
  from assms obtain x where x: "x \<in> set xs" by (cases xs) auto
  then have "(x, count_list xs x) \<in> set (Counter xs)" by (simp add: Counter_mem)
  then obtain p ps where c: "Counter xs = p # ps" by (cases "Counter xs") auto
  obtain b k where bk: "max_item p ps = (b, k)" by (cases "max_item p ps")
  have m: "(b, k) \<in> set (Counter xs)" using max_item_mem[of p ps] c bk by simp
  have ge: "count_list xs y \<le> k" if "y \<in> set xs" for y
  proof -
    have "(y, count_list xs y) \<in> set (p # ps)" using that c Counter_mem[of y "count_list xs y" xs] by simp
    from max_item_ge[OF this] show ?thesis using bk by simp
  qed
  have "b \<in> set xs" "k = count_list xs b" using m by (simp_all add: Counter_mem)
  moreover have "most_common1 (Counter xs) = Some (b, k)" using c bk by simp
  ultimately show ?thesis using that[of b k] ge by blast
qed

lemma majority_vote_Inr_iff:
  "majority_vote preds = Inr a \<longleftrightarrow> length preds div 2 < count_list preds (Some a)"
proof (cases "preds = []")
  case True then show ?thesis by (simp add: majority_vote_def)
next
  case False
  from most_common1_Counter[OF False] obtain b k where
    mc: "most_common1 (Counter preds) = Some (b, k)" and b: "b \<in> set preds"
    and k: "k = count_list preds b" and ge: "\<And>y. y \<in> set preds \<Longrightarrow> count_list preds y \<le> k"
    by blast
  show ?thesis
  proof
    assume "majority_vote preds = Inr a"
    then show "length preds div 2 < count_list preds (Some a)"
      using False mc k by (auto simp: majority_vote_def split: option.splits if_splits)
  next
    assume gt: "length preds div 2 < count_list preds (Some a)"
    then have "0 < count_list preds (Some a)" by simp
    then have mem: "Some a \<in> set preds" by (metis count_list_0_iff less_numeral_extra(3))
    have "b = Some a"
    proof (rule ccontr)
      assume "b \<noteq> Some a"
      then have "count_list preds b + count_list preds (Some a) \<le> length preds"
        by (rule count_list_two)
      moreover have "count_list preds (Some a) \<le> count_list preds b" using ge[OF mem] k by simp
      ultimately show False using gt by linarith
    qed
    then show "majority_vote preds = Inr a"
      using False mc k gt by (simp add: majority_vote_def)
  qed
qed

lemma majority_vote_selected:
  "majority_vote preds = Inr a \<longleftrightarrow>
     (\<exists>k. most_common1 (Counter preds) = Some (Some a, k) \<and> k = count_list preds (Some a)
          \<and> length preds div 2 < k)"
proof (cases "preds = []")
  case True then show ?thesis by (simp add: majority_vote_def Counter_def)
next
  case False
  from most_common1_Counter[OF False] obtain b k where
    mc: "most_common1 (Counter preds) = Some (b, k)" and k: "k = count_list preds b"
    by blast
  show ?thesis using False mc k
    by (auto simp: majority_vote_def split: option.splits if_splits)
qed

lemma majority_vote_examples:
  fixes A B :: int
  assumes "A \<noteq> B"
  shows "majority_vote [Some A, Some A, Some B] = Inr A"
    and "majority_vote [Some A, Some B, None] = Inl Face_Not_Recognized"
    and "majority_vote [Some A, Some A, Some B, Some B] = Inl Face_Not_Recognized"
  using assms by (simp_all add: majority_vote_def Counter_def max_item_def)

text \<open>
  Claim C1.  The vote accepts student \<open>a\<close> exactly when the most frequent prediction
  selected by \<^verbatim>\<open>most_common(1)\<close> is the identity \<open>a\<close> (not \<^verbatim>\<open>None\<close>) and its count \<open>k\<close> is
  strictly greater than \<open>n div 2\<close>, \<open>n\<close> the number of predictions; equivalently, when \<open>a\<close>
  occurs more than \<open>n div 2\<close> times.  Every other non-empty list is answered with
  "face not recognized".  For two different students \<open>A\<close> and \<open>B\<close>: \<open>[A, A, B]\<close> accepts
  \<open>A\<close>; \<open>[A, B, None]\<close> and \<open>[A, A, B, B]\<close> are rejected; the empty list is rejected at once
  with "bad image frames".
\<close>

theorem majority_vote_strict_majority:
  fixes A B :: int
  shows "(preds \<noteq> [] \<longrightarrow>
            (majority_vote preds = Inr a \<longleftrightarrow>
               (\<exists>k. most_common1 (Counter preds) = Some (Some a, k)
                    \<and> k = count_list preds (Some a) \<and> length preds div 2 < k)) \<and>
            (majority_vote preds = Inr a \<longleftrightarrow> length preds div 2 < count_list preds (Some a)) \<and>
            (majority_vote preds = Inl Face_Not_Recognized \<longleftrightarrow>
               (\<forall>s. count_list preds (Some s) \<le> length preds div 2))) \<and>
         (A \<noteq> B \<longrightarrow>
            majority_vote [Some A, Some A, Some B] = Inr A \<and>
            majority_vote [Some A, Some B, None] = Inl Face_Not_Recognized \<and>
            majority_vote [Some A, Some A, Some B, Some B] = Inl Face_Not_Recognized) \<and>
         majority_vote [] = Inl Bad_Image_Frames"
proof -
  have rej: "majority_vote preds = Inl Face_Not_Recognized \<longleftrightarrow>
               (\<forall>s. count_list preds (Some s) \<le> length preds div 2)" if ne: "preds \<noteq> []"
  proof -
    have shape: "majority_vote preds = Inl Face_Not_Recognized \<or> (\<exists>s. majority_vote preds = Inr s)"
    proof -
      from most_common1_Counter[OF ne] obtain b k where
        "most_common1 (Counter preds) = Some (b, k)" by blast
      then show ?thesis using ne by (auto simp: majority_vote_def split: option.splits)
    qed
    show ?thesis
    proof
      assume r: "majority_vote preds = Inl Face_Not_Recognized"
      show "\<forall>s. count_list preds (Some s) \<le> length preds div 2"
      proof
        fix s
        have "majority_vote preds \<noteq> Inr s" using r by simp
        then show "count_list preds (Some s) \<le> length preds div 2"
          by (simp add: majority_vote_Inr_iff)
      qed
    next
      assume all: "\<forall>s. count_list preds (Some s) \<le> length preds div 2"
      have "\<not> (\<exists>s. majority_vote preds = Inr s)"
        using all by (simp add: majority_vote_Inr_iff not_less)
      then show "majority_vote preds = Inl Face_Not_Recognized" using shape by blast
    qed
  qed
  have empty: "majority_vote [] = Inl Bad_Image_Frames" by (simp add: majority_vote_def)
  show ?thesis
    using majority_vote_selected[of preds a] majority_vote_Inr_iff[of preds a] rej
      majority_vote_examples[of A B] empty
    by blast
qed

theorem majority_vote_strict_majority_witness:
  "[Some 1, Some 1, Some 2] \<noteq> ([] :: pred list) \<and> (1::int) \<noteq> 2 \<and>
   majority_vote [Some 1, Some 1, Some 2] = Inr 1 \<and>
   length [Some (1::int), Some 1, Some 2] div 2 < count_list [Some 1, Some 1, Some 2] (Some 1) \<and>
   majority_vote [Some 1, Some 2, None] = Inl Face_Not_Recognized"
  using majority_vote_strict_majority[of "[Some 1, Some 1, Some 2]" 1 1 2] by simp

section \<open>Properties of the matcher\<close>

lemma np_dot_replicate: "np_dot (replicate n a) (replicate n b) = real n * (a * b)"
  by (simp add: np_dot_def zip_replicate sum_list_replicate)

lemma np_norm_replicate: "np_norm (replicate n a) = sqrt (real n) * \<bar>a\<bar>"
  by (simp add: np_norm_def sum_list_replicate real_sqrt_mult)

lemma sqrt_4096: "sqrt 4096 = 64"
  by (rule real_sqrt_unique) simp_all

lemma distance_same_shape:
  "length ref = length e \<Longrightarrow>
     distance ref e = Inr (1 - np_dot ref e / (np_norm ref * np_norm e + 1 / 10 ^ 8), True)"
  by (simp add: distance_def)

lemma distance_replicate:
  "distance (replicate n a) (replicate n b) =
     Inr (1 - real n * (a * b) / (real n * (\<bar>a\<bar> * \<bar>b\<bar>) + 1 / 10 ^ 8), True)"
proof -
  have "sqrt (real n) * \<bar>a\<bar> * (sqrt (real n) * \<bar>b\<bar>) = real n * (\<bar>a\<bar> * \<bar>b\<bar>)"
    by (simp add: algebra_simps)
  then show ?thesis
    by (simp add: distance_def np_dot_replicate np_norm_replicate)
qed

lemma distance_mismatch:
  "length ref \<noteq> length e \<Longrightarrow> length ref \<noteq> 1 \<Longrightarrow> length e \<noteq> 1 \<Longrightarrow>
     distance ref e = Inl ValueError"
  by (simp add: distance_def np_sub_def)

lemma distance_tag: "distance ref e = Inr (d, c) \<Longrightarrow> c = (length ref = length e)"
  by (auto simp: distance_def Let_def split: if_splits sum.splits)

lemma scan_Cons_Inl:
  "distance ref e = Inl err \<Longrightarrow> scan ((sid, ref) # rest) e best = scan rest e best"
  by simp

lemma scan_Cons_Inr_None:
  "distance ref e = Inr (d, c) \<Longrightarrow> scan ((sid, ref) # rest) e None = scan rest e (Some (d, sid, c))"
  by simp

lemma scan_Cons_Inr_Some:
  "distance ref e = Inr (d, c) \<Longrightarrow>
     scan ((sid, ref) # rest) e (Some (d0, s0, c0)) =
     scan rest e (if d < d0 then Some (d, sid, c) else Some (d0, s0, c0))"
  by simp

lemma scan_le_best:
  "scan cache e (Some (d0, s0, c0)) = Some (d, sid, c) \<Longrightarrow> d \<le> d0"
proof (induction cache arbitrary: d0 s0 c0)
  case Nil then show ?case by simp
next
  case (Cons x rest)
  obtain sid' ref where x: "x = (sid', ref)" by (cases x)
  show ?case
  proof (cases "distance ref e")
    case (Inl err)
    then have "scan rest e (Some (d0, s0, c0)) = Some (d, sid, c)"
      using Cons.prems x by (simp only: scan_Cons_Inl)
    then show ?thesis by (rule Cons.IH)
  next
    case (Inr p)
    obtain d' c' where p: "p = (d', c')" by (cases p)
    have step: "scan rest e (if d' < d0 then Some (d', sid', c') else Some (d0, s0, c0)) = Some (d, sid, c)"
      using Cons.prems x Inr p by (simp only: scan_Cons_Inr_Some)
    show ?thesis
    proof (cases "d' < d0")
      case True
      then have "scan rest e (Some (d', sid', c')) = Some (d, sid, c)" using step by simp
      then have "d \<le> d'" by (rule Cons.IH)
      then show ?thesis using True by simp
    next
      case False
      then have "scan rest e (Some (d0, s0, c0)) = Some (d, sid, c)" using step by simp
      then show ?thesis by (rule Cons.IH)
    qed
  qed
qed

lemma scan_not_None: "scan cache e (Some b) \<noteq> None"
proof (induction cache arbitrary: b)
  case Nil show ?case by simp
next
  case (Cons x rest)
  obtain sid' ref where x: "x = (sid', ref)" by (cases x)
  obtain d0 s0 c0 where b: "b = (d0, s0, c0)" by (cases b)
  show ?case
  proof (cases "distance ref e")
    case (Inl err)
    then show ?thesis using Cons.IH x by (simp only: scan_Cons_Inl) simp
  next
    case (Inr p)
    obtain d' c' where p: "p = (d', c')" by (cases p)
    show ?thesis unfolding x b using Inr p Cons.IH
      by (simp only: scan_Cons_Inr_Some split: if_splits) simp
  qed
qed

lemma scan_source:
  "scan cache e best = Some (d, sid, c) \<Longrightarrow>
     best = Some (d, sid, c) \<or> (\<exists>ref. (sid, ref) \<in> set cache \<and> distance ref e = Inr (d, c))"
proof (induction cache arbitrary: best)
  case Nil then show ?case by simp
next
  case (Cons x rest)
  obtain sid' ref where x: "x = (sid', ref)" by (cases x)
  show ?case
  proof (cases "distance ref e")
    case (Inl err)
    then have "scan rest e best = Some (d, sid, c)"
      using Cons.prems x by (simp only: scan_Cons_Inl)
    from Cons.IH[OF this] show ?thesis by auto
  next
    case (Inr p)
    obtain d' c' where p: "p = (d', c')" by (cases p)
    show ?thesis
    proof (cases best)
      case None
      then have "scan rest e (Some (d', sid', c')) = Some (d, sid, c)"
        using Cons.prems x Inr p by (simp only: scan_Cons_Inr_None)
      from Cons.IH[OF this] show ?thesis using x Inr p by auto
    next
      case (Some b)
      obtain d0 s0 c0 where b: "b = (d0, s0, c0)" by (cases b)
      have "scan rest e (if d' < d0 then Some (d', sid', c') else Some (d0, s0, c0)) = Some (d, sid, c)"
        using Cons.prems x Inr p Some b by (simp only: scan_Cons_Inr_Some)
      from Cons.IH[OF this] show ?thesis using x Inr p Some b by (auto split: if_splits)
    qed
  qed
qed

lemma scan_minimal:
  "scan cache e best = Some (d, sid, c) \<Longrightarrow> (sid', ref') \<in> set cache \<Longrightarrow>
     distance ref' e = Inr (d', c') \<Longrightarrow> d \<le> d'"
proof (induction cache arbitrary: best)
  case Nil then show ?case by simp
next
  case (Cons x rest)
  obtain s r where x: "x = (s, r)" by (cases x)
  show ?case
  proof (cases "x = (sid', ref')")
    case True
    then have sr: "s = sid'" "r = ref'" using x by simp_all
    show ?thesis
    proof (cases best)
      case None
      then have "scan rest e (Some (d', sid', c')) = Some (d, sid, c)"
        using Cons.prems(1,3) x sr by (simp only: scan_Cons_Inr_None)
      then show ?thesis by (rule scan_le_best)
    next
      case (Some b)
      obtain d0 s0 c0 where b: "b = (d0, s0, c0)" by (cases b)
      have step: "scan rest e (if d' < d0 then Some (d', sid', c') else Some (d0, s0, c0)) = Some (d, sid, c)"
        using Cons.prems(1,3) x sr Some b by (simp only: scan_Cons_Inr_Some)
      show ?thesis
      proof (cases "d' < d0")
        case True
        then have "scan rest e (Some (d', sid', c')) = Some (d, sid, c)" using step by simp
        then show ?thesis by (rule scan_le_best)
      next
        case False
        then have "scan rest e (Some (d0, s0, c0)) = Some (d, sid, c)" using step by simp
        then have "d \<le> d0" by (rule scan_le_best)
        then show ?thesis using False by simp
      qed
    qed
  next
    case False
    then have mem: "(sid', ref') \<in> set rest" using Cons.prems(2) by auto
    obtain best' where "scan (x # rest) e best = scan rest e best'"
      unfolding x by (cases "distance r e") auto
    then have "scan rest e best' = Some (d, sid, c)" using Cons.prems(1) by simp
    from Cons.IH[OF this mem Cons.prems(3)] show ?thesis .
  qed
qed

lemma scan_None_iff:
  "scan cache e None = None \<longleftrightarrow> (\<forall>(sid, ref) \<in> set cache. \<exists>err. distance ref e = Inl err)"
proof (induction cache)
  case Nil show ?case by simp
next
  case (Cons x rest)
  obtain s r where x: "x = (s, r)" by (cases x)
  show ?case
  proof (cases "distance r e")
    case (Inl err)
    then show ?thesis using Cons.IH x by (simp only: scan_Cons_Inl) auto
  next
    case (Inr p)
    obtain d' c' where p: "p = (d', c')" by (cases p)
    have "scan (x # rest) e None \<noteq> None"
      unfolding x using Inr p scan_not_None by (simp only: scan_Cons_Inr_None) simp
    then show ?thesis using x Inr by auto
  qed
qed

lemma accept_Some:
  "accept (Some (d, s, c)) tn tf = (if d \<le> (if c then tn else tf) then Some s else None)"
  by (cases c) (simp_all add: accept_def not_le)

lemma accept_iff:
  "accept best tn tf = Some sid \<longleftrightarrow>
     (\<exists>d c. best = Some (d, sid, c) \<and> d \<le> (if c then tn else tf))"
proof (cases best)
  case None then show ?thesis by (simp add: accept_def)
next
  case (Some b)
  obtain d0 s0 c0 where b: "b = (d0, s0, c0)" by (cases b)
  show ?thesis unfolding Some b accept_Some by (cases c0) auto
qed

lemma predict_fst:
  "fst (predict_student_id fs st ok frame tn tf) =
     (case compute_embedding fs frame of
        None \<Rightarrow> None
      | Some e \<Rightarrow> accept (scan (ensure_cache fs st ok) e None) tn tf)"
  by (simp add: predict_student_id_def Let_def split: option.splits)

lemma load_cache_empty: "emb_files st = [] \<Longrightarrow> emb_table st = [] \<Longrightarrow> load_cache fs st ok = []"
  by (simp add: load_cache_def load_table_def load_files_def)

text \<open>
  Claim C5.  When the matcher returns a student, that student is the winner of the scan:
  a stored reference at the smallest distance among all references whose distance could
  be computed, and that distance is at most the threshold of the winner's own metric
  (\<open>tn\<close> when the flag \<^verbatim>\<open>is_cosine\<close> is set, \<open>tf\<close> otherwise).  Whenever the scan has a
  winner, the result is the winner if its distance is within that threshold and
  \<^verbatim>\<open>None\<close> otherwise, although a nearest candidate exists.  With an empty reference set
  (an empty cache, or nothing cached and empty storage) the result is \<^verbatim>\<open>None\<close>, a
  value and not an error.  The default thresholds are 0.35 (cosine) and 0.60 (L2).
\<close>

theorem predict_student_id_threshold:
  "(fst (predict_student_id fs st ok frame tn tf) = Some sid \<longrightarrow>
      (\<exists>e d c ref. compute_embedding fs frame = Some e
         \<and> scan (ensure_cache fs st ok) e None = Some (d, sid, c)
         \<and> (sid, ref) \<in> set (ensure_cache fs st ok) \<and> distance ref e = Inr (d, c)
         \<and> (\<forall>(sid', ref') \<in> set (ensure_cache fs st ok).
               \<forall>d' c'. distance ref' e = Inr (d', c') \<longrightarrow> d \<le> d')
         \<and> d \<le> (if c then tn else tf))) \<and>
   (compute_embedding fs frame = Some e \<and> scan (ensure_cache fs st ok) e None = Some (d, sid, c) \<longrightarrow>
      fst (predict_student_id fs st ok frame tn tf) =
        (if d \<le> (if c then tn else tf) then Some sid else None)) \<and>
   (ensure_cache fs st ok = [] \<longrightarrow> fst (predict_student_id fs st ok frame tn tf) = None) \<and>
   (emb_cache fs = None \<and> emb_files st = [] \<and> emb_table st = [] \<longrightarrow>
      fst (predict_student_id fs st ok frame tn tf) = None) \<and>
   threshold_nn_default = 35 / 100 \<and> threshold_fallback_default = 60 / 100"
proof -
  let ?cache = "ensure_cache fs st ok"
  have A: "\<exists>e d c ref. compute_embedding fs frame = Some e
         \<and> scan ?cache e None = Some (d, sid, c)
         \<and> (sid, ref) \<in> set ?cache \<and> distance ref e = Inr (d, c)
         \<and> (\<forall>(sid', ref') \<in> set ?cache. \<forall>d' c'. distance ref' e = Inr (d', c') \<longrightarrow> d \<le> d')
         \<and> d \<le> (if c then tn else tf)"
    if h: "fst (predict_student_id fs st ok frame tn tf) = Some sid"
  proof -
    from h obtain e where e: "compute_embedding fs frame = Some e"
      and acc: "accept (scan ?cache e None) tn tf = Some sid"
      by (auto simp: predict_fst split: option.splits)
    from acc obtain d c where sc: "scan ?cache e None = Some (d, sid, c)"
      and le: "d \<le> (if c then tn else tf)" by (auto simp: accept_iff)
    from scan_source[OF sc] obtain ref where ref: "(sid, ref) \<in> set ?cache" "distance ref e = Inr (d, c)"
      by auto
    have "\<forall>(sid', ref') \<in> set ?cache. \<forall>d' c'. distance ref' e = Inr (d', c') \<longrightarrow> d \<le> d'"
      using scan_minimal[OF sc] by blast
    then show ?thesis using e sc ref le by blast
  qed
  have B: "fst (predict_student_id fs st ok frame tn tf) =
        (if d \<le> (if c then tn else tf) then Some sid else None)"
    if "compute_embedding fs frame = Some e" "scan ?cache e None = Some (d, sid, c)"
    using that by (simp add: predict_fst accept_def)
  have C: "fst (predict_student_id fs st ok frame tn tf) = None" if "?cache = []"
    using that by (simp add: predict_fst accept_def split: option.splits)
  have D: "fst (predict_student_id fs st ok frame tn tf) = None"
    if "emb_cache fs = None \<and> emb_files st = [] \<and> emb_table st = []"
  proof -
    have "?cache = []" using that by (simp add: ensure_cache_def load_cache_empty)
    then show ?thesis by (rule C)
  qed
  have E: "threshold_nn_default = 35 / 100 \<and> threshold_fallback_default = 60 / 100"
    by (simp add: threshold_nn_default_def threshold_fallback_default_def)
  show ?thesis
    apply (intro conjI)
    subgoal using A by (rule impI)
    subgoal using B by (intro impI) (elim conjE)
    subgoal using C by (rule impI)
    subgoal using D by (rule impI)
    subgoal using E by (rule conjunct1)
    subgoal using E by (rule conjunct2)
    done
qed


theorem predict_student_id_threshold_witness:
  "fst (predict_student_id (fallback_service (Some [(1, replicate 4096 1)])) empty_storage True
          (grey_image 1) threshold_nn_default threshold_fallback_default) = Some 1 \<and>
   (\<exists>e d ref.
       compute_embedding (fallback_service (Some [(1, replicate 4096 1)])) (grey_image 1) = Some e
     \<and> scan (ensure_cache (fallback_service (Some [(1, replicate 4096 1)])) empty_storage True) e None
           = Some (d, 1, True)
     \<and> (1, ref) \<in> set (ensure_cache (fallback_service (Some [(1, replicate 4096 1)])) empty_storage True)
     \<and> distance ref e = Inr (d, True)
     \<and> d \<le> threshold_nn_default)"
proof -
  let ?fs = "fallback_service (Some [(1, replicate 4096 1)])"
  have h: "fst (predict_student_id ?fs empty_storage True (grey_image 1)
                  threshold_nn_default threshold_fallback_default) = Some 1"
    by (simp add: predict_fst compute_embedding_def ensure_cache_def accept_Some distance_replicate
        fallback_service_def grey_image_def threshold_nn_default_def threshold_fallback_default_def)
  note imp = conjunct1[OF predict_student_id_threshold[of ?fs empty_storage True "grey_image 1"
          threshold_nn_default threshold_fallback_default 1]]
  from mp[OF imp h] obtain e d c ref where
    w: "compute_embedding ?fs (grey_image 1) = Some e"
       "scan (ensure_cache ?fs empty_storage True) e None = Some (d, 1, c)"
       "(1, ref) \<in> set (ensure_cache ?fs empty_storage True)"
       "distance ref e = Inr (d, c)"
       "d \<le> (if c then threshold_nn_default else threshold_fallback_default)"
    by blast
  have "ref = replicate 4096 1" using w(3) by (simp add: ensure_cache_def fallback_service_def)
  moreover have "e = replicate 4096 1"
    using w(1) by (simp add: compute_embedding_def fallback_service_def grey_image_def)
  ultimately have c: "c = True" using distance_tag[OF w(4)] by simp
  show ?thesis using h w c by auto
qed

lemma predict_fallback_sample:
  "0 \<le> a \<Longrightarrow> 0 \<le> b \<Longrightarrow>
   fst (predict_student_id (fallback_service (Some [(s, replicate 4096 a)])) st ok
          (grey_image b) tn tf) =
     (if 1 - 4096 * (a * b) / (4096 * (a * b) + 1 / 10 ^ 8) \<le> tn then Some s else None)"
  by (simp add: predict_fst compute_embedding_def ensure_cache_def accept_Some distance_replicate
        fallback_service_def grey_image_def)

text \<open>
  Claim C3, at an input where the code departs from it.  The metric is chosen by
  \<^verbatim>\<open>ref.shape == e.shape\<close> alone, so two fallback embeddings (4096 pixels each) are compared
  by the cosine distance and judged by the cosine threshold, where the claim and the
  docstring of \<^verbatim>\<open>predict_student_id\<close> promise the L2 distance and the fallback threshold.
  Reference: an all-white photo; query: a uniform dark grey frame (pixel value 51).  The
  cosine distance is about 0 and the flag \<^verbatim>\<open>is_cosine\<close> is set; the L2 distance would be
  51.2, far above 0.6; the matcher returns student 1.
\<close>
theorem fallback_pair_gets_cosine:
  "distance (replicate 4096 1) (replicate 4096 (1 / 5)) =
     Inr (1 - (4096 / 5) / (4096 / 5 + 1 / 10 ^ 8), True) \<and>
   np_sub (replicate 4096 1) (replicate 4096 (1 / 5)) = Inr (replicate 4096 (4 / 5)) \<and>
   np_norm (replicate 4096 (4 / 5)) = 256 / 5 \<and>
   threshold_fallback_default < 256 / 5 \<and>
   fst (predict_student_id (fallback_service (Some [(1, replicate 4096 1)])) empty_storage True
          (grey_image (1 / 5)) threshold_nn_default threshold_fallback_default) = Some 1"
proof -
  have 1: "distance (replicate 4096 1) (replicate 4096 (1 / 5)) =
     Inr (1 - (4096 / 5) / (4096 / 5 + 1 / 10 ^ 8), True)"
    by (simp add: distance_replicate)
  have 2: "np_sub (replicate 4096 1) (replicate 4096 (1 / 5)) = Inr (replicate 4096 (4 / 5))"
    by (simp add: np_sub_def zip_replicate)
  have 3: "np_norm (replicate 4096 (4 / 5)) = 256 / 5"
    by (simp add: np_norm_replicate sqrt_4096)
  have 4: "threshold_fallback_default < 256 / 5"
    by (simp add: threshold_fallback_default_def)
  have 5: "fst (predict_student_id (fallback_service (Some [(1, replicate 4096 1)])) empty_storage True
          (grey_image (1 / 5)) threshold_nn_default threshold_fallback_default) = Some 1"
    by (simp add: predict_fallback_sample threshold_nn_default_def)
  show ?thesis using 1 2 3 4 5 by (intro conjI)
qed

lemma grey_embedding: "compute_embedding (fallback_service c) (grey_image v) = Some (replicate 4096 v)"
  by (simp add: compute_embedding_def fallback_service_def grey_image_def)

lemma cross_variant_mismatch:
  "cross_variant ref e \<Longrightarrow> length ref \<noteq> length e \<and> length ref \<noteq> 1 \<and> length e \<noteq> 1"
  by (auto simp: cross_variant_def nn_dim_def fallback_dim_def)

lemma scan_filter_computable:
  "scan cache e best = scan (filter (\<lambda>(sid, ref). \<not> isl (distance ref e)) cache) e best"
proof (induction cache arbitrary: best)
  case Nil show ?case by simp
next
  case (Cons x rest)
  obtain s r where x: "x = (s, r)" by (cases x)
  show ?case
  proof (cases "distance r e")
    case (Inl err)
    then show ?thesis using Cons.IH[of best] x by simp
  next
    case (Inr p)
    then show ?thesis using Cons.IH x by simp
  qed
qed

lemma predict_not_skipped:
  assumes e: "compute_embedding fs frame = Some e"
    and all: "\<forall>ref. (sid, ref) \<in> set (ensure_cache fs st ok) \<longrightarrow> distance ref e = Inl ValueError"
  shows "fst (predict_student_id fs st ok frame tn tf) \<noteq> Some sid"
proof
  assume "fst (predict_student_id fs st ok frame tn tf) = Some sid"
  then have "accept (scan (ensure_cache fs st ok) e None) tn tf = Some sid"
    using e by (simp add: predict_fst)
  then obtain d c where sc: "scan (ensure_cache fs st ok) e None = Some (d, sid, c)"
    by (auto simp: accept_iff)
  from scan_source[OF sc] obtain ref where "(sid, ref) \<in> set (ensure_cache fs st ok)"
    "distance ref e = Inr (d, c)" by auto
  then show False using all by auto
qed

text \<open>
  Claim C9.  A reference whose shape mismatches the query, that is a cross-variant pair
  (a 512-number reference against a 4096-number query or the reverse), makes \<^verbatim>\<open>ref - e\<close>
  raise; the scan swallows the exception and goes on as if the reference were absent, so
  a student all of whose references are cross-variant to the query is never returned.
  Every exception of the scan is absorbed in this way: the scan depends only on the
  references whose distance can be computed, and the matcher answers \<^verbatim>\<open>None\<close> or the id of
  a stored reference for every input.
\<close>

theorem cross_variant_reference_skipped:
  "(cross_variant ref e \<longrightarrow>
      distance ref e = Inl ValueError \<and> scan ((sid, ref) # rest) e best = scan rest e best) \<and>
   (compute_embedding fs frame = Some e \<and>
      (\<forall>r. (sid, r) \<in> set (ensure_cache fs st ok) \<longrightarrow> cross_variant r e) \<longrightarrow>
      fst (predict_student_id fs st ok frame tn tf) \<noteq> Some sid) \<and>
   scan cache e best = scan (filter (\<lambda>(sid, ref). \<not> isl (distance ref e)) cache) e best \<and>
   (fst (predict_student_id fs st ok frame tn tf) = None \<or>
      (\<exists>s r. (s, r) \<in> set (ensure_cache fs st ok) \<and> fst (predict_student_id fs st ok frame tn tf) = Some s))"
proof -
  have B: "distance ref e = Inl ValueError \<and> scan ((sid, ref) # rest) e best = scan rest e best"
    if "length ref \<noteq> length e \<and> length ref \<noteq> 1 \<and> length e \<noteq> 1"
    using that distance_mismatch[of ref e] by simp
  have A: "distance ref e = Inl ValueError \<and> scan ((sid, ref) # rest) e best = scan rest e best"
    if "cross_variant ref e"
    using B cross_variant_mismatch[OF that] by blast
  have C: "fst (predict_student_id fs st ok frame tn tf) \<noteq> Some sid"
    if h: "compute_embedding fs frame = Some e \<and>
      (\<forall>r. (sid, r) \<in> set (ensure_cache fs st ok) \<longrightarrow> cross_variant r e)"
  proof (rule predict_not_skipped)
    show "compute_embedding fs frame = Some e" using h by simp
    show "\<forall>r. (sid, r) \<in> set (ensure_cache fs st ok) \<longrightarrow> distance r e = Inl ValueError"
      using h cross_variant_mismatch distance_mismatch by blast
  qed
  have D: "scan cache e best = scan (filter (\<lambda>(sid, ref). \<not> isl (distance ref e)) cache) e best"
    by (rule scan_filter_computable)
  have E: "fst (predict_student_id fs st ok frame tn tf) = None \<or>
      (\<exists>s r. (s, r) \<in> set (ensure_cache fs st ok) \<and> fst (predict_student_id fs st ok frame tn tf) = Some s)"
  proof (cases "fst (predict_student_id fs st ok frame tn tf)")
    case None then show ?thesis by simp
  next
    case (Some s)
    then obtain e' where e': "compute_embedding fs frame = Some e'"
      and acc: "accept (scan (ensure_cache fs st ok) e' None) tn tf = Some s"
      by (auto simp: predict_fst split: option.splits)
    from acc obtain d c where sc: "scan (ensure_cache fs st ok) e' None = Some (d, s, c)"
      by (auto simp: accept_iff)
    from scan_source[OF sc] obtain r where "(s, r) \<in> set (ensure_cache fs st ok)" by auto
    then show ?thesis using Some by blast
  qed
  show ?thesis
    apply (intro conjI)
    subgoal using A by (rule impI)
    subgoal using C by (rule impI)
    subgoal by (rule D)
    subgoal by (rule E)
    done
qed

lemma nn_embedding: "compute_embedding (nn_service c) (nn_image v) = Some (replicate 512 v)"
  by (simp add: compute_embedding_def nn_service_def nn_image_def)

theorem cross_variant_reference_skipped_witness:
  "cross_variant (replicate 4096 1) (replicate 512 1) \<and>
   distance (replicate 4096 1) (replicate 512 1) = Inl ValueError \<and>
   compute_embedding (nn_service (Some [(1, replicate 4096 1)])) (nn_image 1) = Some (replicate 512 1) \<and>
   fst (predict_student_id (nn_service (Some [(1, replicate 4096 1)])) empty_storage True (nn_image 1)
          threshold_nn_default threshold_fallback_default) \<noteq> Some 1"
proof -
  have cv: "cross_variant (replicate 4096 1) (replicate 512 1)"
    by (simp add: cross_variant_def nn_dim_def fallback_dim_def)
  have ce: "compute_embedding (nn_service (Some [(1, replicate 4096 1)])) (nn_image 1) = Some (replicate 512 1)"
    by (rule nn_embedding)
  have all: "\<forall>r. (1, r) \<in> set (ensure_cache (nn_service (Some [(1, replicate 4096 1)])) empty_storage True)
          \<longrightarrow> cross_variant r (replicate 512 1)"
    using cv by (simp add: ensure_cache_def nn_service_def)
  from cross_variant_reference_skipped[of "replicate 4096 1" "replicate 512 1" 1 "[]" None
      "nn_service (Some [(1, replicate 4096 1)])" "nn_image 1" empty_storage True
      threshold_nn_default threshold_fallback_default "[]"] cv ce all
  show ?thesis by blast
qed

lemma enroll_fst_iff:
  "fst (enroll_from_path fs st imread save_ok upsert_ok p sid) \<longleftrightarrow>
     has_cv2 fs \<and> p \<noteq> [] \<and> (\<exists>img e. imread p = Some img \<and> compute_embedding fs img = Some e)"
  by (auto simp: enroll_from_path_def Let_def split: option.splits)

lemma enroll_local_write:
  assumes "has_cv2 fs" "p \<noteq> []" "imread p = Some img" "compute_embedding fs img = Some e"
  shows "emb_files (snd (snd (enroll_from_path fs st imread True upsert_ok p sid))) =
           dict_set (emb_files st) sid e"
  using assms by (simp add: enroll_from_path_def Let_def)

lemma map_of_dict_set: "map_of (dict_set d k v) k = Some v"
  by (induction d k v rule: dict_set.induct) auto

text \<open>
  Claim C10, as amended.  \<^verbatim>\<open>enroll_from_path\<close> returns true exactly when an embedding was
  produced from the image: OpenCV is present, the path is not empty, the image can be
  read and the extraction succeeds.  Storing is best effort on both sides: the result
  does not depend on whether the local write or the remote upsert goes through.  When
  the local write goes through and the remote upsert fails, the result is still true and
  the local file holds the new embedding.
\<close>
theorem enroll_from_path_result:
  "(fst (enroll_from_path fs st imread save_ok upsert_ok p sid) \<longleftrightarrow>
      has_cv2 fs \<and> p \<noteq> [] \<and> (\<exists>img e. imread p = Some img \<and> compute_embedding fs img = Some e)) \<and>
   fst (enroll_from_path fs st imread save_ok upsert_ok p sid) =
     fst (enroll_from_path fs st imread save_ok' upsert_ok' p sid) \<and>
   (has_cv2 fs \<and> p \<noteq> [] \<and> imread p = Some img \<and> compute_embedding fs img = Some e \<longrightarrow>
      fst (enroll_from_path fs st imread True False p sid) \<and>
      map_of (emb_files (snd (snd (enroll_from_path fs st imread True False p sid)))) sid = Some e)"
proof -
  have A: "fst (enroll_from_path fs st imread save_ok upsert_ok p sid) \<longleftrightarrow>
      has_cv2 fs \<and> p \<noteq> [] \<and> (\<exists>img e. imread p = Some img \<and> compute_embedding fs img = Some e)"
    by (rule enroll_fst_iff)
  have B: "fst (enroll_from_path fs st imread save_ok upsert_ok p sid) =
     fst (enroll_from_path fs st imread save_ok' upsert_ok' p sid)"
    by (simp only: enroll_fst_iff)
  have C: "fst (enroll_from_path fs st imread True False p sid) \<and>
      map_of (emb_files (snd (snd (enroll_from_path fs st imread True False p sid)))) sid = Some e"
    if h: "has_cv2 fs \<and> p \<noteq> [] \<and> imread p = Some img \<and> compute_embedding fs img = Some e"
  proof -
    have 1: "fst (enroll_from_path fs st imread True False p sid)"
      using h by (auto simp only: enroll_fst_iff)
    have 2: "emb_files (snd (snd (enroll_from_path fs st imread True False p sid))) =
           dict_set (emb_files st) sid e"
      using h enroll_local_write[of fs p imread img e st False sid] by blast
    show ?thesis using 1 2 by (simp add: map_of_dict_set)
  qed
  show ?thesis
    apply (intro conjI)
    subgoal by (rule A)
    subgoal by (rule B)
    subgoal using C by (rule impI)
    done
qed

theorem enroll_from_path_result_witness:
  "has_cv2 (fallback_service None\<lparr>supabase := True\<rparr>) \<and> ''/uploads/7_a.jpg'' \<noteq> [] \<and>
   reads (grey_image 1) ''/uploads/7_a.jpg'' = Some (grey_image 1) \<and>
   compute_embedding (fallback_service None\<lparr>supabase := True\<rparr>) (grey_image 1) = Some (replicate 4096 1) \<and>
   fst (enroll_from_path (fallback_service None\<lparr>supabase := True\<rparr>) empty_storage
          (reads (grey_image 1)) True False ''/uploads/7_a.jpg'' 7) \<and>
   map_of (emb_files (snd (snd (enroll_from_path (fallback_service None\<lparr>supabase := True\<rparr>)
          empty_storage (reads (grey_image 1)) True False ''/uploads/7_a.jpg'' 7)))) 7
     = Some (replicate 4096 1)"
proof -
  have h: "has_cv2 (fallback_service None\<lparr>supabase := True\<rparr>) \<and> ''/uploads/7_a.jpg'' \<noteq> [] \<and>
   reads (grey_image 1) ''/uploads/7_a.jpg'' = Some (grey_image 1) \<and>
   compute_embedding (fallback_service None\<lparr>supabase := True\<rparr>) (grey_image 1) = Some (replicate 4096 1)"
    by (simp add: compute_embedding_def fallback_service_def grey_image_def reads_def)
  from enroll_from_path_result[of "fallback_service None\<lparr>supabase := True\<rparr>" empty_storage
      "reads (grey_image 1)" True False "''/uploads/7_a.jpg''" 7 True False "grey_image 1"
      "replicate 4096 1"] h
  show ?thesis by blast
qed

text \<open>
  Claim C10 as stated fails when nothing can be stored: without a remote client and with
  a failing local write the result is true and the storage is as empty as before.
\<close>

theorem enroll_true_without_store_counterexample:
  "fst (enroll_from_path (fallback_service None) empty_storage (reads (grey_image 1))
          False False ''/uploads/7_a.jpg'' 7) \<and>
   snd (snd (enroll_from_path (fallback_service None) empty_storage (reads (grey_image 1))
          False False ''/uploads/7_a.jpg'' 7)) = empty_storage \<and>
   emb_files empty_storage = [] \<and> emb_table empty_storage = []"
  by (simp add: enroll_from_path_def compute_embedding_def fallback_service_def grey_image_def
        reads_def empty_storage_def)

lemma delete_keeps_service: "fst (delete_embedding fs st delete_ok sid) = fs"
  by (simp add: delete_embedding_def Let_def)

lemma enroll_invalidates_with_remote:
  assumes "has_cv2 fs" "p \<noteq> []" "imread p = Some img" "compute_embedding fs img = Some e"
    "supabase fs"
  shows "emb_cache (fst (snd (enroll_from_path fs st imread save_ok True p sid))) = None"
  using assms by (simp add: enroll_from_path_def Let_def)

lemma enroll_keeps_cache_without_remote:
  assumes "\<not> supabase fs \<or> \<not> upsert_ok"
  shows "fst (snd (enroll_from_path fs st imread save_ok upsert_ok p sid)) = fs"
  using assms by (auto simp: enroll_from_path_def Let_def split: option.splits)

lemma predict_snd:
  "compute_embedding fs frame = Some e \<Longrightarrow>
     snd (predict_student_id fs st ok frame tn tf) = fs\<lparr>emb_cache := Some (ensure_cache fs st ok)\<rparr>"
  by (simp add: predict_student_id_def Let_def)

text \<open>
  Claim C2, at inputs where the code departs from it.  A first match on a service
  without a remote client warms the cache from the local file of student 7.  Deleting
  the student's embedding empties the durable storage but leaves the service, cache
  included, as it was, and the next match of the same face still returns student 7.
  Likewise an enrolment without a remote client writes the new embedding to the local
  file and leaves the old one in the cache: the assignment \<^verbatim>\<open>self._emb_cache = None\<close> sits
  inside the remote branch only.
\<close>
theorem stale_cache_after_delete_or_local_enroll:
  "snd (predict_student_id (fallback_service None) \<lparr>emb_files = [(7, replicate 4096 1)], emb_table = []\<rparr>
          True (grey_image 1) threshold_nn_default threshold_fallback_default)
     = fallback_service (Some [(7, replicate 4096 1)]) \<and>
   delete_embedding (fallback_service (Some [(7, replicate 4096 1)]))
       \<lparr>emb_files = [(7, replicate 4096 1)], emb_table = []\<rparr> True 7
     = (fallback_service (Some [(7, replicate 4096 1)]), empty_storage) \<and>
   fst (predict_student_id (fallback_service (Some [(7, replicate 4096 1)])) empty_storage
          True (grey_image 1) threshold_nn_default threshold_fallback_default) = Some 7 \<and>
   enroll_from_path (fallback_service (Some [(7, replicate 4096 1)]))
       \<lparr>emb_files = [(7, replicate 4096 1)], emb_table = []\<rparr>
       (reads (grey_image (1 / 5))) True True ''/uploads/7_b.jpg'' 7
     = (True, fallback_service (Some [(7, replicate 4096 1)]),
        \<lparr>emb_files = [(7, replicate 4096 (1 / 5))], emb_table = []\<rparr>)"
proof -
  have 1: "snd (predict_student_id (fallback_service None) \<lparr>emb_files = [(7, replicate 4096 1)], emb_table = []\<rparr>
          True (grey_image 1) threshold_nn_default threshold_fallback_default)
     = fallback_service (Some [(7, replicate 4096 1)])"
    by (subst predict_snd[OF grey_embedding])
       (simp add: ensure_cache_def load_cache_def load_files_def fallback_service_def)
  have 2: "delete_embedding (fallback_service (Some [(7, replicate 4096 1)]))
       \<lparr>emb_files = [(7, replicate 4096 1)], emb_table = []\<rparr> True 7
     = (fallback_service (Some [(7, replicate 4096 1)]), empty_storage)"
    by (simp add: delete_embedding_def fallback_service_def empty_storage_def)
  have 3: "fst (predict_student_id (fallback_service (Some [(7, replicate 4096 1)])) empty_storage
          True (grey_image 1) threshold_nn_default threshold_fallback_default) = Some 7"
    by (simp add: predict_fallback_sample threshold_nn_default_def)
  have 4: "enroll_from_path (fallback_service (Some [(7, replicate 4096 1)]))
       \<lparr>emb_files = [(7, replicate 4096 1)], emb_table = []\<rparr>
       (reads (grey_image (1 / 5))) True True ''/uploads/7_b.jpg'' 7
     = (True, fallback_service (Some [(7, replicate 4096 1)]),
        \<lparr>emb_files = [(7, replicate 4096 (1 / 5))], emb_table = []\<rparr>)"
    by (simp add: enroll_from_path_def reads_def compute_embedding_def fallback_service_def
          grey_image_def)
  show ?thesis using 1 2 3 4 by (intro conjI)
qed

theorem stale_cache_after_delete_or_local_enroll_witness:
  "has_cv2 (fallback_service (Some [(7, replicate 4096 1)])) \<and> ''/uploads/7_b.jpg'' \<noteq> [] \<and>
   fst (enroll_from_path (fallback_service (Some [(7, replicate 4096 1)]))
          \<lparr>emb_files = [(7, replicate 4096 1)], emb_table = []\<rparr>
          (reads (grey_image (1 / 5))) True True ''/uploads/7_b.jpg'' 7) \<and>
   emb_cache (fst (snd (enroll_from_path (fallback_service (Some [(7, replicate 4096 1)]))
          \<lparr>emb_files = [(7, replicate 4096 1)], emb_table = []\<rparr>
          (reads (grey_image (1 / 5))) True True ''/uploads/7_b.jpg'' 7)))
     = Some [(7, replicate 4096 1)] \<and>
   fst (predict_student_id
          (fst (delete_embedding (fallback_service (Some [(7, replicate 4096 1)]))
                  \<lparr>emb_files = [(7, replicate 4096 1)], emb_table = []\<rparr> True 7))
          (snd (delete_embedding (fallback_service (Some [(7, replicate 4096 1)]))
                  \<lparr>emb_files = [(7, replicate 4096 1)], emb_table = []\<rparr> True 7))
          True (grey_image 1) threshold_nn_default threshold_fallback_default) = Some 7"
  using stale_cache_after_delete_or_local_enroll by (simp add: fallback_service_def)

lemma predict_extraction_fails:
  "compute_embedding fs img = None \<Longrightarrow> predict_student_id fs st ok img tn tf = (None, fs)"
  by (simp add: predict_student_id_def)

lemma recognize_frames_Decoded:
  "recognize_frames fs st ok (Decoded img # files) =
     (case fst (recognize_frames (snd (predict_student_id fs st ok img threshold_nn_default
                  threshold_fallback_default)) st ok files) of
        Inl err \<Rightarrow> Inl err
      | Inr preds \<Rightarrow>
          Inr (fst (predict_student_id fs st ok img threshold_nn_default
                      threshold_fallback_default) # preds),
      snd (recognize_frames (snd (predict_student_id fs st ok img threshold_nn_default
                 threshold_fallback_default)) st ok files))"
  by (simp add: split_beta Let_def)

lemma recognize_frames_no_error:
  "Empty_Buffer \<notin> set files \<Longrightarrow>
     \<exists>preds. fst (recognize_frames fs st ok files) = Inr preds \<and>
             length preds = length (filter (\<lambda>f. f \<noteq> Undecodable) files)"
proof (induction files arbitrary: fs)
  case Nil show ?case by simp
next
  case (Cons f files)
  then have ne: "Empty_Buffer \<notin> set files" by simp
  show ?case
  proof (cases f)
    case Empty_Buffer then show ?thesis using Cons.prems by simp
  next
    case Undecodable then show ?thesis using Cons.IH[OF ne] by simp
  next
    case (Decoded img)
    let ?fs1 = "snd (predict_student_id fs st ok img threshold_nn_default threshold_fallback_default)"
    from Cons.IH[OF ne, of ?fs1] obtain preds where
      p: "fst (recognize_frames ?fs1 st ok files) = Inr preds"
         "length preds = length (filter (\<lambda>f. f \<noteq> Undecodable) files)" by blast
    show ?thesis unfolding Decoded recognize_frames_Decoded using p by simp
  qed
qed

lemma recognize_frames_filter:
  "recognize_frames fs st ok (filter (\<lambda>f. f \<noteq> Undecodable) files) = recognize_frames fs st ok files"
proof (induction files arbitrary: fs)
  case Nil show ?case by simp
next
  case (Cons f files)
  show ?case
  proof (cases f)
    case Empty_Buffer then show ?thesis by simp
  next
    case Undecodable then show ?thesis using Cons.IH by simp
  next
    case (Decoded img)
    show ?thesis unfolding Decoded using Cons.IH
      by (simp add: recognize_frames_Decoded del: recognize_frames.simps)
  qed
qed

lemma recognize_frames_undecodable_only:
  "\<forall>f \<in> set files. f = Undecodable \<Longrightarrow> recognize_frames fs st ok files = (Inr [], fs)"
  by (induction files) auto

lemma recognize_frames_extraction_fails:
  "compute_embedding fs img = None \<Longrightarrow> fst (recognize_frames fs st ok files) = Inr preds \<Longrightarrow>
     recognize_frames fs st ok (Decoded img # files) =
       (Inr (None # preds), snd (recognize_frames fs st ok files))"
  by (simp add: recognize_frames_Decoded predict_extraction_fails del: recognize_frames.simps)

text \<open>
  An empty upload ends the loop with the exception of \<^verbatim>\<open>imdecode\<close>, whatever the frames
  before it gave, and the endpoint answers 500.
\<close>

lemma recognize_frames_empty_buffer:
  "Empty_Buffer \<in> set files \<Longrightarrow> fst (recognize_frames fs st ok files) = Inl Cv2_Error"
proof (induction files arbitrary: fs)
  case Nil then show ?case by simp
next
  case (Cons f files)
  show ?case
  proof (cases f)
    case Empty_Buffer then show ?thesis by simp
  next
    case Undecodable then show ?thesis using Cons by simp
  next
    case (Decoded img)
    then have "Empty_Buffer \<in> set files" using Cons.prems by simp
    from Cons.IH[OF this] show ?thesis unfolding Decoded recognize_frames_Decoded by simp
  qed
qed

lemma attendance_recognize_empty_buffer:
  assumes "authorized" "has_cv2 fs" "Empty_Buffer \<in> set files"
  shows "fst (attendance_recognize authorized fs st ok db now files) = Internal_Server_Error"
proof -
  have ne: "files \<noteq> []" using assms(3) by auto
  have "fst (recognize_frames fs st ok files) = Inl Cv2_Error"
    using assms(3) by (rule recognize_frames_empty_buffer)
  then show ?thesis using assms(1,2) ne
    by (simp add: attendance_recognize_def split_beta)
qed

text \<open>
  Claim C4, as amended.  Let no upload be an empty buffer.  Then the loop raises nothing
  and the number \<open>n\<close> of counted predictions is the number of uploads that decode to an
  image.  An upload for which decoding returns no image is skipped: it adds nothing to
  the list of predictions, and the list is the one obtained from the other uploads
  alone.  A decoded frame whose extraction fails is not skipped: it contributes the
  prediction \<^verbatim>\<open>None\<close>, which is counted in \<open>n\<close> and in the bucket of \<^verbatim>\<open>None\<close>; no exception
  arises from it.  When decoding returns no image for any upload, the endpoint answers
  "bad image frames" at once and leaves service and database unchanged.
\<close>

theorem recognize_frames_counts_decoded:
  "(Empty_Buffer \<notin> set files \<longrightarrow>
      (\<exists>counted. fst (recognize_frames fs st ok files) = Inr counted \<and>
                 length counted = length (filter (\<lambda>f. f \<noteq> Undecodable) files))) \<and>
   recognize_frames fs st ok (Undecodable # files) = recognize_frames fs st ok files \<and>
   recognize_frames fs st ok (filter (\<lambda>f. f \<noteq> Undecodable) files) = recognize_frames fs st ok files \<and>
   (compute_embedding fs img = None \<and> fst (recognize_frames fs st ok files) = Inr preds \<longrightarrow>
      recognize_frames fs st ok (Decoded img # files) =
        (Inr (None # preds), snd (recognize_frames fs st ok files))) \<and>
   (authorized \<and> files \<noteq> [] \<and> has_cv2 fs \<and> (\<forall>f \<in> set files. f = Undecodable) \<longrightarrow>
      attendance_recognize authorized fs st ok db now files = (Bad_Image_Frames, fs, db))"
proof -
  have A: "\<exists>counted. fst (recognize_frames fs st ok files) = Inr counted \<and>
                 length counted = length (filter (\<lambda>f. f \<noteq> Undecodable) files)"
    if "Empty_Buffer \<notin> set files"
    using that by (rule recognize_frames_no_error)
  have D: "recognize_frames fs st ok (Decoded img # files) =
        (Inr (None # preds), snd (recognize_frames fs st ok files))"
    if "compute_embedding fs img = None \<and> fst (recognize_frames fs st ok files) = Inr preds"
    using that recognize_frames_extraction_fails by blast
  have E: "attendance_recognize authorized fs st ok db now files = (Bad_Image_Frames, fs, db)"
    if h: "authorized \<and> files \<noteq> [] \<and> has_cv2 fs \<and> (\<forall>f \<in> set files. f = Undecodable)"
  proof -
    have "recognize_frames fs st ok files = (Inr [], fs)"
      using h recognize_frames_undecodable_only by blast
    then show ?thesis using h by (simp add: attendance_recognize_def majority_vote_def)
  qed
  show ?thesis
    apply (intro conjI)
    subgoal using A by (rule impI)
    subgoal by simp
    subgoal by (rule recognize_frames_filter)
    subgoal using D by (rule impI)
    subgoal using E by (rule impI)
    done
qed

lemma failing_embedding: "compute_embedding (nn_service c) failing_image = None"
  by (simp add: compute_embedding_def nn_service_def failing_image_def)

lemma predict_nn_sample:
  "predict_student_id (nn_service (Some [(7, replicate 512 1)])) empty_storage True (nn_image 1)
          threshold_nn_default threshold_fallback_default
     = (Some 7, nn_service (Some [(7, replicate 512 1)]))"
proof -
  have 1: "fst (predict_student_id (nn_service (Some [(7, replicate 512 1)])) empty_storage True
             (nn_image 1) threshold_nn_default threshold_fallback_default) = Some 7"
    by (simp add: predict_fst nn_embedding ensure_cache_def accept_Some distance_replicate
          threshold_nn_default_def)
       (simp add: nn_service_def distance_replicate accept_Some)
  have 2: "snd (predict_student_id (nn_service (Some [(7, replicate 512 1)])) empty_storage True
             (nn_image 1) threshold_nn_default threshold_fallback_default)
            = nn_service (Some [(7, replicate 512 1)])"
    by (subst predict_snd[OF nn_embedding]) (simp add: ensure_cache_def nn_service_def)
  show ?thesis using 1 2 by (simp add: prod_eq_iff)
qed

theorem recognize_frames_counts_decoded_witness:
  "Empty_Buffer \<notin> set [Undecodable, Decoded (nn_image 1)] \<and>
   compute_embedding (nn_service (Some [(7, replicate 512 1)])) failing_image = None \<and>
   fst (recognize_frames (nn_service (Some [(7, replicate 512 1)])) empty_storage True
          [Undecodable, Decoded (nn_image 1)]) = Inr [Some 7] \<and>
   recognize_frames (nn_service (Some [(7, replicate 512 1)])) empty_storage True
       [Decoded failing_image, Undecodable, Decoded (nn_image 1)]
     = (Inr [None, Some 7], nn_service (Some [(7, replicate 512 1)])) \<and>
   attendance_recognize True (nn_service (Some [(7, replicate 512 1)])) empty_storage True
       sample_db (monday_at 9 30) [Undecodable, Undecodable]
     = (Bad_Image_Frames, nn_service (Some [(7, replicate 512 1)]), sample_db)"
proof -
  let ?fs = "nn_service (Some [(7, replicate 512 1)])"
  have ne: "Empty_Buffer \<notin> set [Undecodable, Decoded (nn_image 1)]" by simp
  have f: "compute_embedding ?fs failing_image = None" by (rule failing_embedding)
  have r: "recognize_frames ?fs empty_storage True [Undecodable, Decoded (nn_image 1)]
             = (Inr [Some 7], ?fs)"
    by (simp add: predict_nn_sample)
  have cv: "has_cv2 ?fs" by (simp add: nn_service_def)
  note T = recognize_frames_counts_decoded[of "[Undecodable, Decoded (nn_image 1)]" ?fs
      empty_storage True failing_image "[Some 7]"]
  from T ne obtain counted where
    c: "fst (recognize_frames ?fs empty_storage True [Undecodable, Decoded (nn_image 1)]) = Inr counted"
    by blast
  from T f r
  have a: "recognize_frames ?fs empty_storage True
             [Decoded failing_image, Undecodable, Decoded (nn_image 1)] = (Inr [None, Some 7], ?fs)"
    by simp
  from recognize_frames_counts_decoded[of "[Undecodable, Undecodable]" ?fs empty_storage True
      failing_image "[]" True sample_db "monday_at 9 30"] cv
  have b: "attendance_recognize True ?fs empty_storage True sample_db (monday_at 9 30)
             [Undecodable, Undecodable] = (Bad_Image_Frames, ?fs, sample_db)" by simp
  show ?thesis using ne f r a b by simp
qed

text \<open>
  Claim C4 as stated fails for a frame that decodes but whose extraction fails: after a
  frame recognised as student 7, such a frame makes two counted predictions, one of them
  \<^verbatim>\<open>None\<close>, and the vote rejects; had it been skipped, the single prediction would have
  been accepted.
\<close>

theorem extraction_failure_counted_counterexample:
  "compute_embedding (nn_service (Some [(7, replicate 512 1)])) failing_image = None \<and>
   fst (recognize_frames (nn_service (Some [(7, replicate 512 1)])) empty_storage True
          [Decoded (nn_image 1), Decoded failing_image]) = Inr [Some 7, None] \<and>
   majority_vote [Some 7, None] = Inl Face_Not_Recognized \<and>
   majority_vote [Some 7] = Inr 7"
proof -
  let ?fs = "nn_service (Some [(7, replicate 512 1)])"
  have f: "compute_embedding ?fs failing_image = None" by (rule failing_embedding)
  have r: "fst (recognize_frames ?fs empty_storage True [Decoded (nn_image 1), Decoded failing_image])
             = Inr [Some 7, None]"
    by (simp add: predict_nn_sample predict_extraction_fails[OF f])
  have m: "majority_vote [Some 7, None] = Inl Face_Not_Recognized" "majority_vote [Some 7] = Inr 7"
    by (simp_all add: majority_vote_def Counter_def max_item_def)
  show ?thesis using f r m by simp
qed

section \<open>Properties of the timetable lookup and the ledger\<close>

lemma current_slot_find:
  "current_slot rows t = find (\<lambda>r. start_time r \<le> t \<and> t \<le> end_time r) rows"
  by (induction rows) auto

lemma current_slot_None_iff:
  "current_slot rows t = None \<longleftrightarrow> (\<forall>r \<in> set rows. \<not> (start_time r \<le> t \<and> t \<le> end_time r))"
  by (induction rows) auto

lemma current_slot_Some:
  "current_slot rows t = Some r \<Longrightarrow>
     \<exists>pre post. rows = pre @ r # post \<and> start_time r \<le> t \<and> t \<le> end_time r \<and>
        (\<forall>q \<in> set pre. \<not> (start_time q \<le> t \<and> t \<le> end_time q))"
proof (induction rows)
  case Nil then show ?case by simp
next
  case (Cons a rows)
  show ?case
  proof (cases "start_time a \<le> t \<and> t \<le> end_time a")
    case True
    then have "a = r" using Cons.prems by simp
    then show ?thesis using True by (intro exI[of _ "[]"] exI[of _ rows]) simp
  next
    case False
    then have "current_slot rows t = Some r" using Cons.prems by auto
    from Cons.IH[OF this] obtain pre post where
      p: "rows = pre @ r # post" "start_time r \<le> t" "t \<le> end_time r"
        "\<forall>q \<in> set pre. \<not> (start_time q \<le> t \<and> t \<le> end_time q)" by blast
    show ?thesis using p False
      by (intro exI[of _ "a # pre"] exI[of _ post]) auto
  qed
qed

lemma set_timetable_rows:
  "set (timetable_rows db sid wd) =
     {r \<in> set (student_timetables db). stt_student_id r = sid \<and> stt_weekday r = wd}"
  by (auto simp: timetable_rows_def)

lemma sorted_timetable_rows: "sorted (map start_time (timetable_rows db sid wd))"
  by (simp add: timetable_rows_def)

lemma current_slot_sorted_minimal:
  assumes "sorted (map start_time rows)" "current_slot rows t = Some r"
    "q \<in> set rows" "start_time q \<le> t \<and> t \<le> end_time q"
  shows "start_time r \<le> start_time q"
proof -
  from current_slot_Some[OF assms(2)] obtain pre post where
    p: "rows = pre @ r # post" "\<forall>q \<in> set pre. \<not> (start_time q \<le> t \<and> t \<le> end_time q)" by blast
  have "q \<notin> set pre" using p(2) assms(4) by blast
  then have "q \<in> set (r # post)" using assms(3) p(1) by auto
  moreover have "sorted (map start_time (r # post))"
    using assms(1) p(1) by (simp add: sorted_append)
  ultimately show ?thesis by auto
qed

lemma sample_rows:
  "timetable_rows sample_db 7 0 =
     [\<lparr>stt_student_id = 7, stt_subject_id = 1, stt_weekday = 0,
       start_time = ''09:00'', end_time = ''10:00''\<rparr>,
      \<lparr>stt_student_id = 7, stt_subject_id = 2, stt_weekday = 0,
       start_time = ''10:00'', end_time = ''11:00''\<rparr>]"
  by (simp add: timetable_rows_def sample_db_def)

lemma no_class_response:
  "students db sid = Some s \<Longrightarrow>
   current_slot (timetable_rows db sid (weekday now)) (strftime_HM now) = None \<Longrightarrow>
   mark_attendance db now sid = (No_Matching_Class sid (student_name s), db)"
  by (simp add: mark_attendance_def current_subject_def)

text \<open>
  Claim C6.  The rows the loop runs over are the timetable rows of the given student
  and weekday, ordered by start time.  When the loop finds a slot, it is one of those
  rows, its interval contains the time with both ends included, and no row of that
  student and weekday whose interval contains the time starts earlier; on any list the
  loop returns the first row, in the order of the list, whose interval contains the
  time.  It finds nothing exactly when no row of that student and weekday contains the
  time, and the flow then answers "no matching class" and leaves the database as it is.
  For the slots 09:00-10:00 (subject 1) and 10:00-11:00 (subject 2) on Monday: 09:30
  gives subject 1; 10:00 gives subject 1, whose interval includes that boundary; 12:00
  gives nothing.
\<close>
theorem current_slot_first_containing:
  "(current_slot (timetable_rows db sid wd) t = Some r \<longrightarrow>
      r \<in> set (student_timetables db) \<and> stt_student_id r = sid \<and> stt_weekday r = wd \<and>
      start_time r \<le> t \<and> t \<le> end_time r \<and>
      (\<forall>q \<in> set (student_timetables db).
          stt_student_id q = sid \<and> stt_weekday q = wd \<and> start_time q \<le> t \<and> t \<le> end_time q
          \<longrightarrow> start_time r \<le> start_time q)) \<and>
   (current_slot (timetable_rows db sid wd) t = None \<longleftrightarrow>
      (\<forall>q \<in> set (student_timetables db).
          stt_student_id q = sid \<and> stt_weekday q = wd \<longrightarrow> \<not> (start_time q \<le> t \<and> t \<le> end_time q))) \<and>
   current_slot rows t = find (\<lambda>q. start_time q \<le> t \<and> t \<le> end_time q) rows \<and>
   (students db sid = Some s \<and>
    current_slot (timetable_rows db sid (weekday now)) (strftime_HM now) = None \<longrightarrow>
      mark_attendance db now sid = (No_Matching_Class sid (student_name s), db)) \<and>
   map_option stt_subject_id (current_slot (timetable_rows sample_db 7 0) ''09:30'') = Some 1 \<and>
   map_option stt_subject_id (current_slot (timetable_rows sample_db 7 0) ''10:00'') = Some 1 \<and>
   current_slot (timetable_rows sample_db 7 0) ''12:00'' = None"
proof -
  have A: "r \<in> set (student_timetables db) \<and> stt_student_id r = sid \<and> stt_weekday r = wd \<and>
      start_time r \<le> t \<and> t \<le> end_time r \<and>
      (\<forall>q \<in> set (student_timetables db).
          stt_student_id q = sid \<and> stt_weekday q = wd \<and> start_time q \<le> t \<and> t \<le> end_time q
          \<longrightarrow> start_time r \<le> start_time q)"
    if h: "current_slot (timetable_rows db sid wd) t = Some r"
  proof -
    from current_slot_Some[OF h] obtain pre post where
      p: "timetable_rows db sid wd = pre @ r # post" "start_time r \<le> t" "t \<le> end_time r" by blast
    have "r \<in> set (timetable_rows db sid wd)" using p(1) by simp
    then have m: "r \<in> set (student_timetables db)" "stt_student_id r = sid" "stt_weekday r = wd"
      by (simp_all add: set_timetable_rows)
    have least: "start_time r \<le> start_time q"
      if "q \<in> set (student_timetables db)" "stt_student_id q = sid" "stt_weekday q = wd"
        "start_time q \<le> t" "t \<le> end_time q" for q
    proof -
      have "q \<in> set (timetable_rows db sid wd)" using that by (simp add: set_timetable_rows)
      then show ?thesis
        using current_slot_sorted_minimal[OF sorted_timetable_rows h] that by blast
    qed
    show ?thesis using m p(2,3) least by blast
  qed
  have B: "current_slot (timetable_rows db sid wd) t = None \<longleftrightarrow>
      (\<forall>q \<in> set (student_timetables db).
          stt_student_id q = sid \<and> stt_weekday q = wd \<longrightarrow> \<not> (start_time q \<le> t \<and> t \<le> end_time q))"
    unfolding current_slot_None_iff set_timetable_rows by blast
  have C: "current_slot rows t = find (\<lambda>q. start_time q \<le> t \<and> t \<le> end_time q) rows"
    by (rule current_slot_find)
  have D: "mark_attendance db now sid = (No_Matching_Class sid (student_name s), db)"
    if "students db sid = Some s \<and>
        current_slot (timetable_rows db sid (weekday now)) (strftime_HM now) = None"
    using that no_class_response by blast
  have E: "map_option stt_subject_id (current_slot (timetable_rows sample_db 7 0) ''09:30'') = Some 1"
    "map_option stt_subject_id (current_slot (timetable_rows sample_db 7 0) ''10:00'') = Some 1"
    "current_slot (timetable_rows sample_db 7 0) ''12:00'' = None"
    by (simp_all add: sample_rows)
  show ?thesis
    apply (intro conjI)
    subgoal using A by (rule impI)
    subgoal by (rule B)
    subgoal by (rule C)
    subgoal using D by (rule impI)
    subgoal by (rule E(1))
    subgoal by (rule E(2))
    subgoal by (rule E(3))
    done
qed

theorem current_slot_first_containing_witness:
  "current_slot (timetable_rows sample_db 7 0) ''09:30'' =
     Some \<lparr>stt_student_id = 7, stt_subject_id = 1, stt_weekday = 0,
           start_time = ''09:00'', end_time = ''10:00''\<rparr> \<and>
   \<lparr>stt_student_id = 7, stt_subject_id = 1, stt_weekday = 0,
     start_time = ''09:00'', end_time = ''10:00''\<rparr> \<in> set (student_timetables sample_db) \<and>
   students sample_db 7 = Some \<lparr>student_name = ''Asha'', student_class_id = Some 1\<rparr> \<and>
   current_slot (timetable_rows sample_db 7 (weekday (monday_at 12 0))) (strftime_HM (monday_at 12 0))
     = None \<and>
   mark_attendance sample_db (monday_at 12 0) 7 = (No_Matching_Class 7 ''Asha'', sample_db)"
proof -
  let ?r = "\<lparr>stt_student_id = 7, stt_subject_id = 1, stt_weekday = 0,
           start_time = ''09:00'', end_time = ''10:00''\<rparr>"
  have h1: "current_slot (timetable_rows sample_db 7 0) ''09:30'' = Some ?r"
    by (simp add: sample_rows)
  have h2: "students sample_db 7 = Some \<lparr>student_name = ''Asha'', student_class_id = Some 1\<rparr>"
    by (simp add: sample_db_def)
  have wd: "weekday (monday_at 12 0) = 0" "strftime_HM (monday_at 12 0) = ''12:00''"
    by (simp_all add: weekday_def monday_at_def strftime_HM_def two_digits_def)
  have h3: "current_slot (timetable_rows sample_db 7 (weekday (monday_at 12 0)))
              (strftime_HM (monday_at 12 0)) = None"
    by (simp add: wd sample_rows)
  from current_slot_first_containing[of sample_db 7 0 "''09:30''" ?r "[]"
      "\<lparr>student_name = ''Asha'', student_class_id = Some 1\<rparr>" "monday_at 12 0"] h1 h2 h3
  show ?thesis by simp
qed

lemma existing_None_iff:
  "existing_attendance db sid subj now = None \<longleftrightarrow> ledger_count db sid subj (dt_ordinal now) = 0"
  by (auto simp: existing_attendance_def ledger_count_def find_None_iff filter_empty_conv)

lemma mark_already:
  assumes "students db sid = Some s" "current_subject db sid now = Some (subj, name)"
    "0 < ledger_count db sid subj (dt_ordinal now)"
  shows "mark_attendance db now sid = (Attendance_Already_Marked sid (student_name s) subj name, db)"
proof -
  have "existing_attendance db sid subj now \<noteq> None" using assms(3) by (simp add: existing_None_iff)
  then obtain a where "existing_attendance db sid subj now = Some a" by auto
  then show ?thesis using assms(1,2) by (simp add: mark_attendance_def)
qed

lemma mark_new:
  assumes "students db sid = Some s" "current_subject db sid now = Some (subj, name)"
    "ledger_count db sid subj (dt_ordinal now) = 0"
  shows "mark_attendance db now sid =
           (Attendance_Marked sid (student_name s) subj name,
            db\<lparr>attendance_rows := attendance_rows db @
               [\<lparr>att_student_id = sid, att_subject_id = Some subj,
                 att_class_id = student_class_id s, att_timestamp = now,
                 att_is_present = True, att_method = ''face''\<rparr>]\<rparr>)"
proof -
  have "existing_attendance db sid subj now = None" using assms(3) by (simp add: existing_None_iff)
  then show ?thesis using assms(1,2) by (simp add: mark_attendance_def)
qed

lemma mark_new_count:
  assumes "students db sid = Some s" "current_subject db sid now = Some (subj, name)"
    "ledger_count db sid subj (dt_ordinal now) = 0"
  shows "ledger_count (snd (mark_attendance db now sid)) sid subj (dt_ordinal now) = 1"
  using assms(3) by (simp add: mark_new[OF assms]) (simp add: ledger_count_def)

lemma mark_keeps_tables:
  "students (snd (mark_attendance db now sid)) = students db \<and>
   subjects (snd (mark_attendance db now sid)) = subjects db \<and>
   student_timetables (snd (mark_attendance db now sid)) = student_timetables db"
  by (simp add: mark_attendance_def split: option.splits prod.splits)

lemma current_subject_cong:
  "subjects db' = subjects db \<Longrightarrow> student_timetables db' = student_timetables db \<Longrightarrow>
     current_subject db' sid now = current_subject db sid now"
  by (simp add: current_subject_def timetable_rows_def split: option.splits)

lemma mark_count_after:
  assumes "students db sid = Some s" "current_subject db sid now = Some (subj, name)"
  shows "ledger_count (snd (mark_attendance db now sid)) sid subj (dt_ordinal now) =
           (if ledger_count db sid subj (dt_ordinal now) = 0 then 1
            else ledger_count db sid subj (dt_ordinal now))"
proof (cases "ledger_count db sid subj (dt_ordinal now) = 0")
  case True
  then show ?thesis using mark_new_count[OF assms True] by simp
next
  case False
  then have "0 < ledger_count db sid subj (dt_ordinal now)" by simp
  from mark_already[OF assms this] False show ?thesis by simp
qed

text \<open>
  Claim C7, as amended.  Let the flow resolve the student and the time to a subject.  If
  the ledger already holds a record of that student for that subject on that day, the
  flow answers "attendance already marked" and leaves the database, the ledger
  included, unchanged.
  Running the flow twice on the same day, both times resolving to the same subject, the
  second run answers "attendance already marked" and changes nothing; afterwards the
  ledger holds one record for the triple if it held none before, and as many as before
  otherwise: exactly one whenever it held at most one before the first run.
\<close>
theorem mark_attendance_idempotent:
  "(students db sid = Some s \<and> current_subject db sid now = Some (subj, name) \<and>
      0 < ledger_count db sid subj (dt_ordinal now) \<longrightarrow>
      mark_attendance db now sid =
        (Attendance_Already_Marked sid (student_name s) subj name, db)) \<and>
   (students db sid = Some s \<and> current_subject db sid now = Some (subj, name) \<and>
      current_subject db sid now' = Some (subj, name) \<and> dt_ordinal now' = dt_ordinal now \<longrightarrow>
      mark_attendance (snd (mark_attendance db now sid)) now' sid =
        (Attendance_Already_Marked sid (student_name s) subj name, snd (mark_attendance db now sid)) \<and>
      ledger_count (snd (mark_attendance (snd (mark_attendance db now sid)) now' sid))
          sid subj (dt_ordinal now) =
        (if ledger_count db sid subj (dt_ordinal now) = 0 then 1
         else ledger_count db sid subj (dt_ordinal now))) \<and>
   (students db sid = Some s \<and> current_subject db sid now = Some (subj, name) \<and>
      current_subject db sid now' = Some (subj, name) \<and> dt_ordinal now' = dt_ordinal now \<and>
      ledger_count db sid subj (dt_ordinal now) \<le> 1 \<longrightarrow>
      ledger_count (snd (mark_attendance (snd (mark_attendance db now sid)) now' sid))
          sid subj (dt_ordinal now) = 1)"
proof -
  have A: "mark_attendance db now sid =
        (Attendance_Already_Marked sid (student_name s) subj name, db)"
    if "students db sid = Some s \<and> current_subject db sid now = Some (subj, name) \<and>
      0 < ledger_count db sid subj (dt_ordinal now)"
    using that mark_already by blast
  have B: "mark_attendance (snd (mark_attendance db now sid)) now' sid =
        (Attendance_Already_Marked sid (student_name s) subj name, snd (mark_attendance db now sid)) \<and>
      ledger_count (snd (mark_attendance (snd (mark_attendance db now sid)) now' sid))
          sid subj (dt_ordinal now) =
        (if ledger_count db sid subj (dt_ordinal now) = 0 then 1
         else ledger_count db sid subj (dt_ordinal now))"
    if h: "students db sid = Some s \<and> current_subject db sid now = Some (subj, name) \<and>
      current_subject db sid now' = Some (subj, name) \<and> dt_ordinal now' = dt_ordinal now"
  proof -
    let ?db1 = "snd (mark_attendance db now sid)"
    have st: "students ?db1 sid = Some s" using h mark_keeps_tables[of db now sid] by simp
    have cs: "current_subject ?db1 sid now' = Some (subj, name)"
      using h mark_keeps_tables[of db now sid] current_subject_cong[of ?db1 db sid now'] by simp
    have cnt: "ledger_count ?db1 sid subj (dt_ordinal now) =
           (if ledger_count db sid subj (dt_ordinal now) = 0 then 1
            else ledger_count db sid subj (dt_ordinal now))"
      using h mark_count_after[of db sid s now subj name] by blast
    then have pos: "0 < ledger_count ?db1 sid subj (dt_ordinal now')" using h by (simp split: if_splits)
    have second: "mark_attendance ?db1 now' sid =
        (Attendance_Already_Marked sid (student_name s) subj name, ?db1)"
      by (rule mark_already[OF st cs pos])
    show ?thesis using second cnt by simp
  qed
  have C: "ledger_count (snd (mark_attendance (snd (mark_attendance db now sid)) now' sid))
          sid subj (dt_ordinal now) = 1"
    if h: "students db sid = Some s \<and> current_subject db sid now = Some (subj, name) \<and>
      current_subject db sid now' = Some (subj, name) \<and> dt_ordinal now' = dt_ordinal now \<and>
      ledger_count db sid subj (dt_ordinal now) \<le> 1"
  proof -
    have "ledger_count (snd (mark_attendance (snd (mark_attendance db now sid)) now' sid))
          sid subj (dt_ordinal now) =
        (if ledger_count db sid subj (dt_ordinal now) = 0 then 1
         else ledger_count db sid subj (dt_ordinal now))"
      using B h by blast
    then show ?thesis using h by (simp split: if_splits)
  qed
  show ?thesis
    apply (intro conjI)
    subgoal using A by (rule impI)
    subgoal using B by (rule impI)
    subgoal using C by (rule impI)
    done
qed

lemma sample_current_subject:
  "current_subject sample_db 7 (monday_at 9 30) = Some (1, ''Subj1'')"
  "current_subject sample_db 7 (monday_at 9 45) = Some (1, ''Subj1'')"
proof -
  have wd: "weekday (monday_at 9 m) = 0" for m by (simp add: weekday_def monday_at_def)
  have t: "strftime_HM (monday_at 9 30) = ''09:30''" "strftime_HM (monday_at 9 45) = ''09:45''"
    by (simp_all add: strftime_HM_def monday_at_def two_digits_def)
  have sl: "current_slot (timetable_rows sample_db 7 0) ''09:30'' =
     Some \<lparr>stt_student_id = 7, stt_subject_id = 1, stt_weekday = 0,
           start_time = ''09:00'', end_time = ''10:00''\<rparr>"
    "current_slot (timetable_rows sample_db 7 0) ''09:45'' =
     Some \<lparr>stt_student_id = 7, stt_subject_id = 1, stt_weekday = 0,
           start_time = ''09:00'', end_time = ''10:00''\<rparr>"
    by (simp_all add: sample_rows)
  have sub: "subjects sample_db 1 = Some ''Subj1''" by (simp add: sample_db_def)
  show "current_subject sample_db 7 (monday_at 9 30) = Some (1, ''Subj1'')"
    by (simp add: current_subject_def wd t sl sub)
  show "current_subject sample_db 7 (monday_at 9 45) = Some (1, ''Subj1'')"
    by (simp add: current_subject_def wd t sl sub)
qed

theorem mark_attendance_idempotent_witness:
  "students sample_db 7 = Some \<lparr>student_name = ''Asha'', student_class_id = Some 1\<rparr> \<and>
   current_subject sample_db 7 (monday_at 9 30) = Some (1, ''Subj1'') \<and>
   current_subject sample_db 7 (monday_at 9 45) = Some (1, ''Subj1'') \<and>
   dt_ordinal (monday_at 9 45) = dt_ordinal (monday_at 9 30) \<and>
   ledger_count sample_db 7 1 (dt_ordinal (monday_at 9 30)) \<le> 1 \<and>
   fst (mark_attendance sample_db (monday_at 9 30) 7) = Attendance_Marked 7 ''Asha'' 1 ''Subj1'' \<and>
   students (snd (mark_attendance sample_db (monday_at 9 30) 7)) 7
     = Some \<lparr>student_name = ''Asha'', student_class_id = Some 1\<rparr> \<and>
   current_subject (snd (mark_attendance sample_db (monday_at 9 30) 7)) 7 (monday_at 9 45)
     = Some (1, ''Subj1'') \<and>
   0 < ledger_count (snd (mark_attendance sample_db (monday_at 9 30) 7)) 7 1
         (dt_ordinal (monday_at 9 45)) \<and>
   mark_attendance (snd (mark_attendance sample_db (monday_at 9 30) 7)) (monday_at 9 45) 7 =
     (Attendance_Already_Marked 7 ''Asha'' 1 ''Subj1'',
      snd (mark_attendance sample_db (monday_at 9 30) 7)) \<and>
   ledger_count (snd (mark_attendance (snd (mark_attendance sample_db (monday_at 9 30) 7))
                        (monday_at 9 45) 7)) 7 1 (dt_ordinal (monday_at 9 30)) = 1"
proof -
  let ?s = "\<lparr>student_name = ''Asha'', student_class_id = Some 1\<rparr>"
  have st: "students sample_db 7 = Some ?s" by (simp add: sample_db_def)
  have c1: "current_subject sample_db 7 (monday_at 9 30) = Some (1, ''Subj1'')"
    by (rule sample_current_subject)
  have c2: "current_subject sample_db 7 (monday_at 9 45) = Some (1, ''Subj1'')"
    by (rule sample_current_subject)
  have d: "dt_ordinal (monday_at 9 45) = dt_ordinal (monday_at 9 30)" by (simp add: monday_at_def)
  have l: "ledger_count sample_db 7 1 (dt_ordinal (monday_at 9 30)) = 0"
    by (simp add: ledger_count_def sample_db_def)
  have first: "fst (mark_attendance sample_db (monday_at 9 30) 7) = Attendance_Marked 7 ''Asha'' 1 ''Subj1''"
    using mark_new[OF st c1 l] by simp
  have l1: "ledger_count sample_db 7 1 (dt_ordinal (monday_at 9 30)) \<le> 1" using l by simp
  note T = mark_attendance_idempotent[of sample_db 7 ?s "monday_at 9 30" 1 "''Subj1''" "monday_at 9 45"]
  have C: "ledger_count (snd (mark_attendance (snd (mark_attendance sample_db (monday_at 9 30) 7))
                        (monday_at 9 45) 7)) 7 1 (dt_ordinal (monday_at 9 30)) = 1"
    using T st c1 c2 d l1 by blast
  let ?db1 = "snd (mark_attendance sample_db (monday_at 9 30) 7)"
  have st1: "students ?db1 7 = Some ?s" using st mark_keeps_tables[of sample_db "monday_at 9 30" 7] by simp
  have cs1: "current_subject ?db1 7 (monday_at 9 45) = Some (1, ''Subj1'')"
    using c2 mark_keeps_tables[of sample_db "monday_at 9 30" 7]
      current_subject_cong[of ?db1 sample_db 7 "monday_at 9 45"] by simp
  have pos1: "0 < ledger_count ?db1 7 1 (dt_ordinal (monday_at 9 45))"
    using mark_new_count[OF st c1 l] d by simp
  have A: "mark_attendance ?db1 (monday_at 9 45) 7 = (Attendance_Already_Marked 7 ''Asha'' 1 ''Subj1'', ?db1)"
    using mark_attendance_idempotent[of ?db1 7 ?s "monday_at 9 45" 1 "''Subj1''" "monday_at 9 45"]
      st1 cs1 pos1 by simp
  show ?thesis using st c1 c2 d l1 first st1 cs1 pos1 A C by (intro conjI)
qed

text \<open>
  Claim C7 as stated fails for a ledger that already holds two records of the triple, as
  two calls of the manual endpoint leave it: both runs of the flow answer "attendance
  already marked", and two records remain, not one.
\<close>

lemma manual_twice_rows:
  "manual_twice_db = sample_db\<lparr>attendance_rows :=
     [\<lparr>att_student_id = 7, att_subject_id = Some 1, att_class_id = None,
       att_timestamp = monday_at 9 10, att_is_present = True, att_method = ''manual''\<rparr>,
      \<lparr>att_student_id = 7, att_subject_id = Some 1, att_class_id = None,
       att_timestamp = monday_at 9 20, att_is_present = True, att_method = ''manual''\<rparr>]\<rparr>"
  by (simp add: manual_twice_db_def manual_attendance_def sample_db_def)

theorem duplicate_ledger_counterexample:
  "ledger_count manual_twice_db 7 1 (dt_ordinal (monday_at 9 30)) = 2 \<and>
   mark_attendance manual_twice_db (monday_at 9 30) 7 =
     (Attendance_Already_Marked 7 ''Asha'' 1 ''Subj1'', manual_twice_db) \<and>
   mark_attendance (snd (mark_attendance manual_twice_db (monday_at 9 30) 7)) (monday_at 9 45) 7 =
     (Attendance_Already_Marked 7 ''Asha'' 1 ''Subj1'', manual_twice_db) \<and>
   ledger_count (snd (mark_attendance (snd (mark_attendance manual_twice_db (monday_at 9 30) 7))
                        (monday_at 9 45) 7)) 7 1 (dt_ordinal (monday_at 9 30)) = 2"
proof -
  let ?s = "\<lparr>student_name = ''Asha'', student_class_id = Some 1\<rparr>"
  have st: "students manual_twice_db 7 = Some ?s"
    by (simp add: manual_twice_rows) (simp add: sample_db_def)
  have tabs: "subjects manual_twice_db = subjects sample_db"
    "student_timetables manual_twice_db = student_timetables sample_db"
    by (simp_all add: manual_twice_rows)
  have c1: "current_subject manual_twice_db 7 (monday_at 9 30) = Some (1, ''Subj1'')"
    using current_subject_cong[OF tabs] sample_current_subject(1) by simp
  have c2: "current_subject manual_twice_db 7 (monday_at 9 45) = Some (1, ''Subj1'')"
    using current_subject_cong[OF tabs] sample_current_subject(2) by simp
  have n: "ledger_count manual_twice_db 7 1 (dt_ordinal (monday_at 9 30)) = 2"
    by (simp add: manual_twice_rows ledger_count_def monday_at_def)
  have d: "dt_ordinal (monday_at 9 45) = dt_ordinal (monday_at 9 30)" by (simp add: monday_at_def)
  have m1: "mark_attendance manual_twice_db (monday_at 9 30) 7 =
     (Attendance_Already_Marked 7 ''Asha'' 1 ''Subj1'', manual_twice_db)"
    using mark_already[OF st c1] n by simp
  have m2: "mark_attendance manual_twice_db (monday_at 9 45) 7 =
     (Attendance_Already_Marked 7 ''Asha'' 1 ''Subj1'', manual_twice_db)"
    using mark_already[OF st c2] n d by simp
  show ?thesis using n m1 m2 by simp
qed

end
